theory Spec2Isabelle
  imports Complex_Main "HOL-Library.Char_ord" "HOL-Library.List_Lexorder"
    "HOL-Library.Product_Lexorder"
begin

section \<open>Values, errors and the grade matrix\<close>

text \<open>
  The program is \<^verbatim>\<open>student_performance_analysis.py\<close>. Its analysis functions work on a
  numpy matrix of grades with one row per student, of dtype float64. A matrix is a list
  of rows, a row a list of scores, a score a float64 value: a finite number, one of the
  two infinities, or NaN (what \<^verbatim>\<open>np.genfromtxt\<close> stores for a cell it cannot read). The
  two zeros of float64 are one value here; no function of the program tells them apart.
  An exception raised by numpy is an \<open>error\<close> returned on the left of a sum.
\<close>

datatype error = ValueError | IndexError

datatype f64 = Fin real | PInf | NInf | NaN

definition valid_grades :: "f64 list list \<Rightarrow> bool" where
  \<comment> \<open>the shape (N, 10) of the loaded matrix\<close>
  "valid_grades grades = list_all (\<lambda>r. length r = 10) grades"

definition flatten :: "f64 list list \<Rightarrow> f64 list" where
  \<comment> \<open>\<^verbatim>\<open>grades.flatten()\<close>, and the order in which a reduction over the whole matrix
      reads it: the matrix is C-contiguous, as \<^verbatim>\<open>np.genfromtxt\<close> and boolean indexing
      return it\<close>
  "flatten grades = concat grades"

section \<open>float64 arithmetic\<close>

text \<open>
  Every arithmetic operation of float64 returns the exact result rounded to the nearest
  float64 value, ties to the value with an even significand; a result of magnitude
  \<open>2^1024\<close> or more after rounding is an infinity. A finite float64 value is a multiple
  of \<open>2^(e - 52)\<close>, where \<open>e\<close> is its binary exponent, at least \<open>-1022\<close>.
\<close>

definition pow2 :: "int \<Rightarrow> real" where
  "pow2 e = (if 0 \<le> e then 2 ^ nat e else 1 / 2 ^ nat (- e))"

definition rne :: "real \<Rightarrow> int" where
  \<comment> \<open>the nearest integer, ties to even\<close>
  "rne x =
     (let f = \<lfloor>x\<rfloor>; d = x - of_int f
      in if d < 1 / 2 then f else if 1 / 2 < d then f + 1 else if even f then f else f + 1)"

fun expo_up :: "nat \<Rightarrow> int \<Rightarrow> real \<Rightarrow> int" where
  "expo_up n e x = (if n = 0 \<or> x < 2 then e else expo_up (n - 1) (e + 1) (x / 2))"

fun expo_down :: "nat \<Rightarrow> int \<Rightarrow> real \<Rightarrow> int" where
  "expo_down n e x = (if n = 0 \<or> 1 \<le> x then e else expo_down (n - 1) (e - 1) (2 * x))"

declare expo_up.simps [simp del]

declare expo_down.simps [simp del]

definition expo :: "real \<Rightarrow> int" where
  \<comment> \<open>the binary exponent of a magnitude: \<open>2^e \<le> x < 2^(e + 1)\<close>, kept between the
      exponent of the subnormal numbers, -1022, and 1024\<close>
  "expo x = (if 1 \<le> x then expo_up 1024 0 x else expo_down 1022 0 x)"

definition round_fin :: "real \<Rightarrow> real" where
  \<comment> \<open>the nearest multiple of the spacing of float64 at the magnitude of \<open>x\<close>\<close>
  "round_fin x = (let q = pow2 (expo \<bar>x\<bar> - 52) in of_int (rne (x / q)) * q)"

definition round64 :: "real \<Rightarrow> f64" where
  "round64 x =
     (let y = round_fin x
      in if pow2 1024 \<le> y then PInf else if y \<le> - pow2 1024 then NInf else Fin y)"

definition fneg :: "f64 \<Rightarrow> f64" where
  "fneg a = (case a of Fin x \<Rightarrow> Fin (- x) | PInf \<Rightarrow> NInf | NInf \<Rightarrow> PInf | NaN \<Rightarrow> NaN)"

definition fadd :: "f64 \<Rightarrow> f64 \<Rightarrow> f64" where
  "fadd a b =
     (case a of
        NaN \<Rightarrow> NaN
      | PInf \<Rightarrow> (case b of NaN \<Rightarrow> NaN | NInf \<Rightarrow> NaN | _ \<Rightarrow> PInf)
      | NInf \<Rightarrow> (case b of NaN \<Rightarrow> NaN | PInf \<Rightarrow> NaN | _ \<Rightarrow> NInf)
      | Fin x \<Rightarrow> (case b of Fin y \<Rightarrow> round64 (x + y) | _ \<Rightarrow> b))"

definition fsub :: "f64 \<Rightarrow> f64 \<Rightarrow> f64" where
  "fsub a b = fadd a (fneg b)"

definition fmul :: "f64 \<Rightarrow> f64 \<Rightarrow> f64" where
  "fmul a b =
     (case a of
        NaN \<Rightarrow> NaN
      | Fin x \<Rightarrow>
          (case b of
             NaN \<Rightarrow> NaN
           | Fin y \<Rightarrow> round64 (x * y)
           | PInf \<Rightarrow> (if x = 0 then NaN else if 0 < x then PInf else NInf)
           | NInf \<Rightarrow> (if x = 0 then NaN else if 0 < x then NInf else PInf))
      | PInf \<Rightarrow>
          (case b of
             NaN \<Rightarrow> NaN
           | Fin y \<Rightarrow> (if y = 0 then NaN else if 0 < y then PInf else NInf)
           | PInf \<Rightarrow> PInf
           | NInf \<Rightarrow> NInf)
      | NInf \<Rightarrow>
          (case b of
             NaN \<Rightarrow> NaN
           | Fin y \<Rightarrow> (if y = 0 then NaN else if 0 < y then NInf else PInf)
           | PInf \<Rightarrow> NInf
           | NInf \<Rightarrow> PInf))"

definition fdiv :: "f64 \<Rightarrow> f64 \<Rightarrow> f64" where
  \<comment> \<open>a zero divisor is the positive zero: the program divides by counts only\<close>
  "fdiv a b =
     (case a of
        NaN \<Rightarrow> NaN
      | Fin x \<Rightarrow>
          (case b of
             NaN \<Rightarrow> NaN
           | Fin y \<Rightarrow>
               (if y = 0 then (if x = 0 then NaN else if 0 < x then PInf else NInf)
                else round64 (x / y))
           | _ \<Rightarrow> Fin 0)
      | PInf \<Rightarrow> (case b of Fin y \<Rightarrow> (if 0 \<le> y then PInf else NInf) | _ \<Rightarrow> NaN)
      | NInf \<Rightarrow> (case b of Fin y \<Rightarrow> (if 0 \<le> y then NInf else PInf) | _ \<Rightarrow> NaN))"

definition fsqrt :: "f64 \<Rightarrow> f64" where
  "fsqrt a =
     (case a of
        Fin x \<Rightarrow> (if x < 0 then NaN else round64 (sqrt x))
      | PInf \<Rightarrow> PInf
      | _ \<Rightarrow> NaN)"

definition of_count :: "nat \<Rightarrow> f64" where
  \<comment> \<open>an integer count as a float64 operand\<close>
  "of_count n = round64 (real n)"

subsection \<open>Comparisons and the sorting order\<close>

definition f64_lt :: "f64 \<Rightarrow> f64 \<Rightarrow> bool" where
  \<comment> \<open>\<open><\<close> of float64: false as soon as one side is NaN\<close>
  "f64_lt a b =
     (case a of
        NaN \<Rightarrow> False
      | Fin x \<Rightarrow> (case b of Fin y \<Rightarrow> x < y | PInf \<Rightarrow> True | _ \<Rightarrow> False)
      | NInf \<Rightarrow> (case b of Fin y \<Rightarrow> True | PInf \<Rightarrow> True | _ \<Rightarrow> False)
      | PInf \<Rightarrow> False)"

definition f64_le :: "f64 \<Rightarrow> f64 \<Rightarrow> bool" where
  "f64_le a b =
     (case a of
        NaN \<Rightarrow> False
      | Fin x \<Rightarrow> (case b of Fin y \<Rightarrow> x \<le> y | PInf \<Rightarrow> True | _ \<Rightarrow> False)
      | NInf \<Rightarrow> (case b of NaN \<Rightarrow> False | _ \<Rightarrow> True)
      | PInf \<Rightarrow> (case b of PInf \<Rightarrow> True | _ \<Rightarrow> False))"

definition f64_gt :: "f64 \<Rightarrow> f64 \<Rightarrow> bool" where
  "f64_gt a b = f64_lt b a"

definition f64_ge :: "f64 \<Rightarrow> f64 \<Rightarrow> bool" where
  "f64_ge a b = f64_le b a"

definition sort_rank :: "f64 \<Rightarrow> int \<times> real" where
  \<comment> \<open>the order in which numpy sorts float64 values: by value, NaN last\<close>
  "sort_rank a =
     (case a of NInf \<Rightarrow> (- 1, 0) | Fin x \<Rightarrow> (0, x) | PInf \<Rightarrow> (1, 0) | NaN \<Rightarrow> (2, 0))"

definition fmax :: "f64 \<Rightarrow> f64 \<Rightarrow> f64" where
  \<comment> \<open>\<^verbatim>\<open>np.maximum\<close>: a NaN operand is the result\<close>
  "fmax a b = (if a = NaN \<or> b = NaN then NaN else if f64_lt a b then b else a)"

definition fmin :: "f64 \<Rightarrow> f64 \<Rightarrow> f64" where
  "fmin a b = (if a = NaN \<or> b = NaN then NaN else if f64_lt b a then b else a)"

section \<open>The numpy reductions\<close>

text \<open>
  \<^verbatim>\<open>np.add.reduce\<close> over a contiguous run of float64 values is numpy's pairwise
  summation: fewer than 8 values are added one after the other; up to 128 values are
  added into 8 accumulators, which are then added in pairs, and the values left over
  are added one after the other; a longer run is cut in two at a multiple of 8. The
  reduction starts from the identity 0, and \<open>0 + s = s\<close> for every float64 value.
\<close>

fun add_blocks :: "f64 list \<Rightarrow> f64 list \<Rightarrow> f64 list" where
  "add_blocks r xs =
     (if length xs < 8 then r else add_blocks (map2 fadd r (take 8 xs)) (drop 8 xs))"

declare add_blocks.simps [simp del]

definition block_sum :: "f64 list \<Rightarrow> f64" where
  \<comment> \<open>between 8 and 128 values\<close>
  "block_sum xs =
     (let n = length xs;
          r = add_blocks (take 8 xs) (take (n - n mod 8 - 8) (drop 8 xs));
          res = fadd (fadd (fadd (r ! 0) (r ! 1)) (fadd (r ! 2) (r ! 3)))
                     (fadd (fadd (r ! 4) (r ! 5)) (fadd (r ! 6) (r ! 7)))
      in foldl fadd res (drop (n - n mod 8) xs))"

function pairwise_sum :: "f64 list \<Rightarrow> f64" where
  "pairwise_sum xs =
     (if length xs < 8 then foldl fadd (Fin 0) xs
      else if length xs \<le> 128 then block_sum xs
      else fadd (pairwise_sum (take (length xs div 2 - length xs div 2 mod 8) xs))
                (pairwise_sum (drop (length xs div 2 - length xs div 2 mod 8) xs)))"
  by pat_completeness auto

termination
  by (relation "measure length") auto

declare pairwise_sum.simps [simp del]

definition np_mean :: "f64 list \<Rightarrow> f64" where
  \<comment> \<open>\<^verbatim>\<open>np.mean\<close> of a contiguous run: the sum over the count; 0/0 = NaN (and a
      warning) on no values\<close>
  "np_mean xs = fdiv (pairwise_sum xs) (of_count (length xs))"

definition np_std :: "f64 list \<Rightarrow> f64" where
  \<comment> \<open>\<^verbatim>\<open>np.std\<close> with ddof = 0: the root of the mean of the squared deviations from
      the mean\<close>
  "np_std xs =
     (let arrmean = fdiv (pairwise_sum xs) (of_count (length xs));
          x = map (\<lambda>v. fsub v arrmean) xs;
          x2 = map (\<lambda>v. fmul v v) x
      in fsqrt (fdiv (pairwise_sum x2) (of_count (length xs))))"

definition np_median :: "f64 list \<Rightarrow> f64" where
  \<comment> \<open>\<^verbatim>\<open>np.median\<close>: the mean of the slice \<open>[index : index+1]\<close> of the ordered values
      for an odd count, of \<open>[index-1 : index+1]\<close> for an even one; NaN when a value is
      NaN\<close>
  "np_median xs =
     (let part = sort_key sort_rank xs; n = length xs; index = n div 2;
          rout = (if n mod 2 = 1 then np_mean (take 1 (drop index part))
                  else np_mean (take 2 (drop (index - 1) part)))
      in if NaN \<in> set xs then NaN else rout)"

definition np_max :: "f64 list \<Rightarrow> error + f64" where
  \<comment> \<open>\<^verbatim>\<open>np.max\<close>: a zero-size array has no maximum, numpy raises ValueError\<close>
  "np_max xs = (case xs of [] \<Rightarrow> Inl ValueError | x # rest \<Rightarrow> Inr (foldl fmax x rest))"

definition np_min :: "f64 list \<Rightarrow> error + f64" where
  "np_min xs = (case xs of [] \<Rightarrow> Inl ValueError | x # rest \<Rightarrow> Inr (foldl fmin x rest))"

section \<open>StatisticsCalculator\<close>

record overall_stats =
  overall_avg :: f64
  overall_std :: f64
  overall_median :: f64
  max_val :: f64
  min_val :: f64

definition calculate_overall_stats :: "f64 list list \<Rightarrow> error + overall_stats" where
  \<comment> \<open>the dictionary is built entry by entry: mean, std and median first (none of them
      raises), then max and min\<close>
  "calculate_overall_stats grades =
     (let a = flatten grades;
          avg = np_mean a;
          sd = np_std a;
          med = np_median a
      in case np_max a of
           Inl e \<Rightarrow> Inl e
         | Inr mx \<Rightarrow>
             (case np_min a of
                Inl e \<Rightarrow> Inl e
              | Inr mn \<Rightarrow>
                  Inr \<lparr>overall_avg = avg, overall_std = sd, overall_median = med,
                       max_val = mx, min_val = mn\<rparr>))"

subsection \<open>Semester statistics\<close>

definition np_mean_axis0 :: "nat \<Rightarrow> f64 list list \<Rightarrow> f64 list" where
  \<comment> \<open>\<^verbatim>\<open>np.mean(m, axis=0)\<close> of a matrix of shape (N, ncols): the rows are added one
      after the other into one accumulator per column, and each sum is divided by N.
      The column count is part of the shape, also when N = 0.\<close>
  "np_mean_axis0 ncols m =
     map (\<lambda>j. fdiv (foldl fadd (Fin 0) (map (\<lambda>r. r ! j) m)) (of_count (length m)))
       [0..<ncols]"

record semester_stats =
  sem1_avg :: "f64 list"
  sem2_avg :: "f64 list"
  improvement :: "f64 list"
  sem1_overall :: f64
  sem2_overall :: f64

definition calculate_semester_stats :: "f64 list list \<Rightarrow> semester_stats" where
  "calculate_semester_stats grades =
     (let sem1_grades = map (take 5) grades;
          sem2_grades = map (drop 5) grades;
          s1 = np_mean_axis0 5 sem1_grades;
          s2 = np_mean_axis0 5 sem2_grades
      in \<lparr>sem1_avg = s1, sem2_avg = s2,
          improvement = map2 fsub s2 s1,
          sem1_overall = np_mean s1,
          sem2_overall = np_mean s2\<rparr>)"

subsection \<open>Grade distribution\<close>

record grade_entry =
  dist_count :: nat
  dist_percentage :: f64

definition np_count :: "bool list \<Rightarrow> nat" where
  \<comment> \<open>\<^verbatim>\<open>np.sum(mask)\<close>: the number of True entries\<close>
  "np_count msk = length (filter (\<lambda>b. b) msk)"

definition grade_ranges :: "f64 list \<Rightarrow> (string \<times> bool list) list" where
  "grade_ranges all_grades =
     [(''A'', map (\<lambda>g. f64_ge g (Fin 90)) all_grades),
      (''B'', map (\<lambda>g. f64_ge g (Fin 80) \<and> f64_lt g (Fin 90)) all_grades),
      (''C'', map (\<lambda>g. f64_ge g (Fin 70) \<and> f64_lt g (Fin 80)) all_grades),
      (''D'', map (\<lambda>g. f64_ge g (Fin 60) \<and> f64_lt g (Fin 70)) all_grades),
      (''F'', map (\<lambda>g. f64_lt g (Fin 60)) all_grades)]"

definition get_grade_distribution :: "f64 list list \<Rightarrow> (string \<times> grade_entry) list" where
  \<comment> \<open>the dictionary in insertion order. \<^verbatim>\<open>count / total\<close> divides two integers as
      float64 values: with total = 0 the count is 0 too and the quotient is NaN (a
      warning, no exception).\<close>
  "get_grade_distribution grades =
     (let all_grades = flatten grades;
          total = length all_grades
      in map (\<lambda>(grade_letter, msk).
                (let c = np_count msk
                 in (grade_letter,
                     \<lparr>dist_count = c,
                      dist_percentage = fmul (fdiv (of_count c) (of_count total)) (Fin 100)\<rparr>)))
             (grade_ranges all_grades))"

section \<open>StudentAnalyzer\<close>

subsection \<open>Indexing and slicing\<close>

definition np_take :: "'a list \<Rightarrow> nat list \<Rightarrow> error + 'a list" where
  \<comment> \<open>\<^verbatim>\<open>xs[idx]\<close> with an array of indices: IndexError on an index out of bounds\<close>
  "np_take xs idx =
     (if list_all (\<lambda>i. i < length xs) idx then Inr (map (\<lambda>i. xs ! i) idx)
      else Inl IndexError)"

definition np_compress :: "'a list \<Rightarrow> bool list \<Rightarrow> error + 'a list" where
  \<comment> \<open>\<^verbatim>\<open>xs[mask]\<close> with a boolean array: IndexError unless the lengths agree\<close>
  "np_compress xs msk =
     (if length msk = length xs then Inr (map fst (filter snd (zip xs msk)))
      else Inl IndexError)"

definition py_slice_to :: "'a list \<Rightarrow> int \<Rightarrow> 'a list" where
  \<comment> \<open>\<^verbatim>\<open>xs[:k]\<close>: a negative k counts from the end\<close>
  "py_slice_to xs k =
     (if k < 0 then take (nat (int (length xs) + k)) xs else take (nat k) xs)"

definition py_slice_from :: "'a list \<Rightarrow> int \<Rightarrow> 'a list" where
  \<comment> \<open>\<^verbatim>\<open>xs[k:]\<close>: a negative k counts from the end\<close>
  "py_slice_from xs k =
     (if k < 0 then drop (nat (int (length xs) + k)) xs else drop (nat k) xs)"

fun map_err :: "('a \<Rightarrow> error + 'b) \<Rightarrow> 'a list \<Rightarrow> error + 'b list" where
  "map_err f [] = Inr []"
| "map_err f (x # xs) =
     (case f x of
        Inl e \<Rightarrow> Inl e
      | Inr y \<Rightarrow> (case map_err f xs of Inl e \<Rightarrow> Inl e | Inr ys \<Rightarrow> Inr (y # ys)))"

subsection \<open>Row-wise reductions\<close>

definition np_mean_axis1 :: "f64 list list \<Rightarrow> f64 list" where
  \<comment> \<open>\<^verbatim>\<open>np.mean(m, axis=1)\<close>: one mean per row, each row a contiguous run\<close>
  "np_mean_axis1 m = map np_mean m"

definition np_argsort :: "f64 list \<Rightarrow> nat list" where
  \<comment> \<open>\<^verbatim>\<open>np.argsort\<close>: the indices in ascending order of their values, NaN last. The
      order numpy gives to the indices of equal values depends on its sorting routine;
      here they stay in index order.\<close>
  "np_argsort xs = sort_key (\<lambda>i. sort_rank (xs ! i)) [0..<length xs]"

fun argmin_loop :: "f64 list \<Rightarrow> nat \<Rightarrow> f64 \<Rightarrow> nat \<Rightarrow> nat" where
  "argmin_loop [] i mp min_ind = min_ind"
| "argmin_loop (x # xs) i mp min_ind =
     (if \<not> f64_ge x mp
      then (if x = NaN then i else argmin_loop xs (Suc i) x i)
      else argmin_loop xs (Suc i) mp min_ind)"

definition np_argmin :: "f64 list \<Rightarrow> error + nat" where
  \<comment> \<open>\<^verbatim>\<open>np.argmin\<close>: the first index of the minimum, or of the first NaN; ValueError on
      no values\<close>
  "np_argmin xs =
     (case xs of
        [] \<Rightarrow> Inl ValueError
      | x # rest \<Rightarrow> Inr (if x = NaN then 0 else argmin_loop rest 1 x 0))"

subsection \<open>Ranking\<close>

record ranking_group =
  ids :: "int list"
  scores :: "f64 list"

record rankings =
  averages :: "f64 list"
  top_students :: ranking_group
  bottom_students :: ranking_group

definition rank_students :: "int list \<Rightarrow> f64 list list \<Rightarrow> int \<Rightarrow> error + rankings" where
  "rank_students student_ids grades top_n =
     (let student_averages = np_mean_axis1 grades;
          ranked_indices = rev (np_argsort student_averages);
          top_indices = py_slice_to ranked_indices top_n;
          bottom_indices = py_slice_from ranked_indices (- top_n)
      in case np_take student_ids top_indices of
           Inl e \<Rightarrow> Inl e
         | Inr top_ids \<Rightarrow>
       (case np_take student_averages top_indices of
           Inl e \<Rightarrow> Inl e
         | Inr top_scores \<Rightarrow>
       (case np_take student_ids bottom_indices of
           Inl e \<Rightarrow> Inl e
         | Inr bottom_ids \<Rightarrow>
       (case np_take student_averages bottom_indices of
           Inl e \<Rightarrow> Inl e
         | Inr bottom_scores \<Rightarrow>
             Inr \<lparr>averages = student_averages,
                  top_students = \<lparr>ids = top_ids, scores = top_scores\<rparr>,
                  bottom_students = \<lparr>ids = bottom_ids, scores = bottom_scores\<rparr>\<rparr>))))"

subsection \<open>Students at risk\<close>

record at_risk =
  risk_count :: nat
  risk_ids :: "int list"
  risk_averages :: "f64 list"
  weakest_subject_idx :: "nat list"
  weakest_scores :: "f64 list"

definition identify_at_risk :: "int list \<Rightarrow> f64 list list \<Rightarrow> f64 \<Rightarrow> error + at_risk" where
  "identify_at_risk student_ids grades threshold =
     (let student_averages = np_mean_axis1 grades;
          at_risk_mask = map (\<lambda>a. f64_lt a threshold) student_averages
      in case np_compress grades at_risk_mask of
           Inl e \<Rightarrow> Inl e
         | Inr at_risk_grades \<Rightarrow>
       (case (if flatten at_risk_grades \<noteq> [] then map_err np_argmin at_risk_grades
              else Inr []) of
           Inl e \<Rightarrow> Inl e
         | Inr weakest_subjects \<Rightarrow>
       (case np_compress student_ids at_risk_mask of
           Inl e \<Rightarrow> Inl e
         | Inr at_risk_ids \<Rightarrow>
       (case np_compress student_averages at_risk_mask of
           Inl e \<Rightarrow> Inl e
         | Inr at_risk_averages \<Rightarrow>
       (case (if flatten at_risk_grades \<noteq> [] then map_err np_min at_risk_grades
              else Inr []) of
           Inl e \<Rightarrow> Inl e
         | Inr at_risk_min \<Rightarrow>
             Inr \<lparr>risk_count = np_count at_risk_mask,
                  risk_ids = at_risk_ids,
                  risk_averages = at_risk_averages,
                  weakest_subject_idx = weakest_subjects,
                  weakest_scores = at_risk_min\<rparr>)))))"

subsection \<open>Improvement between the semesters\<close>

record improvement_group =
  grp_count :: nat
  grp_ids :: "int list"
  grp_delta :: "f64 list"

record improvement_tracking =
  improved :: improvement_group
  declined :: improvement_group
  all_deltas :: "f64 list"

definition track_improvement ::
  "int list \<Rightarrow> f64 list list \<Rightarrow> f64 \<Rightarrow> error + improvement_tracking" where
  "track_improvement student_ids grades threshold =
     (let s1 = np_mean_axis1 (map (take 5) grades);
          s2 = np_mean_axis1 (map (drop 5) grades);
          improvement_delta = map2 fsub s2 s1;
          improved_mask = map (\<lambda>d. f64_gt d threshold) improvement_delta;
          declined_mask = map (\<lambda>d. f64_lt d (fneg threshold)) improvement_delta
      in case np_compress student_ids improved_mask of
           Inl e \<Rightarrow> Inl e
         | Inr improved_ids \<Rightarrow>
       (case np_compress improvement_delta improved_mask of
           Inl e \<Rightarrow> Inl e
         | Inr improved_delta \<Rightarrow>
       (case np_compress student_ids declined_mask of
           Inl e \<Rightarrow> Inl e
         | Inr declined_ids \<Rightarrow>
       (case np_compress improvement_delta declined_mask of
           Inl e \<Rightarrow> Inl e
         | Inr declined_delta \<Rightarrow>
             Inr \<lparr>improved = \<lparr>grp_count = np_count improved_mask,
                               grp_ids = improved_ids, grp_delta = improved_delta\<rparr>,
                  declined = \<lparr>grp_count = np_count declined_mask,
                               grp_ids = declined_ids, grp_delta = declined_delta\<rparr>,
                  all_deltas = improvement_delta\<rparr>))))"

subsection \<open>Sections\<close>

record section_stats =
  sec_count :: nat
  sec_avg :: f64
  sec_std :: f64
  sec_median :: f64
  sec_min :: f64
  sec_max :: f64

definition np_unique :: "string list \<Rightarrow> string list" where
  \<comment> \<open>\<^verbatim>\<open>np.unique\<close>: the distinct labels in ascending order\<close>
  "np_unique sections = sort (remdups sections)"

definition section_entry :: "string list \<Rightarrow> f64 list list \<Rightarrow> string \<Rightarrow> error + section_stats" where
  \<comment> \<open>the body of the loop: the entries are built in the order count, avg, std, median,
      min, max, and only the boolean indexing, min and max can raise\<close>
  "section_entry sections grades section =
     (let section_mask = map (\<lambda>s. s = section) sections
      in case np_compress grades section_mask of
           Inl e \<Rightarrow> Inl e
         | Inr section_grades \<Rightarrow>
             (let a = flatten section_grades
              in case np_min a of
                   Inl e \<Rightarrow> Inl e
                 | Inr mn \<Rightarrow>
                     (case np_max a of
                        Inl e \<Rightarrow> Inl e
                      | Inr mx \<Rightarrow>
                          Inr \<lparr>sec_count = np_count section_mask,
                               sec_avg = np_mean a,
                               sec_std = np_std a,
                               sec_median = np_median a,
                               sec_min = mn,
                               sec_max = mx\<rparr>)))"

fun sections_loop ::
  "string list \<Rightarrow> string list \<Rightarrow> f64 list list \<Rightarrow> (string \<rightharpoonup> section_stats)
     \<Rightarrow> error + (string \<rightharpoonup> section_stats)" where
  "sections_loop [] sections grades section_stats = Inr section_stats"
| "sections_loop (section # rest) sections grades section_stats =
     (case section_entry sections grades section of
        Inl e \<Rightarrow> Inl e
      | Inr st \<Rightarrow> sections_loop rest sections grades (section_stats(section \<mapsto> st)))"

definition analyze_sections ::
  "string list \<Rightarrow> f64 list list \<Rightarrow> error + (string \<rightharpoonup> section_stats)" where
  "analyze_sections sections grades =
     sections_loop (np_unique sections) sections grades Map.empty"

section \<open>Notions of the specification\<close>

definition students_where :: "('a \<Rightarrow> bool) \<Rightarrow> 'a list \<Rightarrow> nat list" where
  \<comment> \<open>the students, as row positions in ascending order, whose value satisfies \<open>P\<close>\<close>
  "students_where P xs = filter (\<lambda>i. P (xs ! i)) [0..<length xs]"

definition fin_val :: "f64 \<Rightarrow> real" where
  \<comment> \<open>the number that a finite float64 value stands for\<close>
  "fin_val a = (case a of Fin x \<Rightarrow> x | _ \<Rightarrow> 0)"

definition spec_mean :: "f64 list \<Rightarrow> real" where
  \<comment> \<open>the arithmetic mean of finite values, in exact arithmetic\<close>
  "spec_mean xs = sum_list (map fin_val xs) / real (length xs)"

definition float_delta :: "f64 list \<Rightarrow> f64" where
  \<comment> \<open>a student's improvement as float64 computes it: the mean of columns 5 to 9
      minus the mean of columns 0 to 4, each mean and the difference rounded\<close>
  "float_delta r = fsub (np_mean (drop 5 r)) (np_mean (take 5 r))"

definition spec_delta :: "f64 list \<Rightarrow> real" where
  \<comment> \<open>the same improvement in exact arithmetic\<close>
  "spec_delta r = spec_mean (drop 5 r) - spec_mean (take 5 r)"

definition letter_of :: "f64 \<Rightarrow> string option" where
  \<comment> \<open>the letter policy: A from 90, B from 80, C from 70, D from 60, F below; NaN has
      no letter\<close>
  "letter_of g =
     (if g = NaN then None
      else if f64_ge g (Fin 90) then Some ''A''
      else if f64_ge g (Fin 80) then Some ''B''
      else if f64_ge g (Fin 70) then Some ''C''
      else if f64_ge g (Fin 60) then Some ''D''
      else Some ''F'')"

section \<open>Facts about float64 rounding\<close>

lemma pow2_powi: "pow2 e = 2 powi e"
  by (simp add: pow2_def power_int_def field_simps)

lemma pow2_pos [simp]: "0 < pow2 e"
  by (simp add: pow2_powi)

lemma pow2_nz [simp]: "pow2 e \<noteq> 0"
  using pow2_pos [of e] by linarith

lemma pow2_nonneg [simp]: "0 \<le> pow2 e"
  using pow2_pos [of e] by linarith

lemma pow2_53: "pow2 53 = 2 ^ 53"
  by (simp add: pow2_def)

lemma pow2_52: "pow2 52 = 2 ^ 52"
  by (simp add: pow2_def)

lemma pow2_add: "pow2 (a + b) = pow2 a * pow2 b"
  by (simp add: pow2_powi power_int_add)

lemma pow2_0 [simp]: "pow2 0 = 1"
  by (simp add: pow2_def)

lemma pow2_1 [simp]: "pow2 1 = 2"
  by (simp add: pow2_def)

lemma pow2_Suc: "pow2 (e + 1) = 2 * pow2 e"
  by (simp add: pow2_add)

lemma pow2_mono: "a \<le> b \<Longrightarrow> pow2 a \<le> pow2 b"
  by (simp add: pow2_powi power_int_increasing)

lemma pow2_nat: "pow2 (int n) = 2 ^ n"
  by (simp add: pow2_def)

lemma pow2_diff: "pow2 (a - b) = pow2 a / pow2 b"
  by (simp add: pow2_powi power_int_diff)

lemma pow2_minus: "pow2 (- e) = 1 / pow2 e"
  by (simp add: pow2_powi power_int_minus field_simps)

lemma rne_of_int [simp]: "rne (of_int k) = k"
  by (simp add: rne_def)

lemma rne_0 [simp]: "rne 0 = 0"
  by (simp add: rne_def)

lemma rne_mono: "x \<le> y \<Longrightarrow> rne x \<le> rne y"
proof -
  assume xy: "x \<le> y"
  have fl: "\<lfloor>x\<rfloor> \<le> \<lfloor>y\<rfloor>" using xy by (rule floor_mono)
  have bx: "rne x \<le> \<lfloor>x\<rfloor> + 1" by (simp add: rne_def Let_def)
  have by': "\<lfloor>y\<rfloor> \<le> rne y" by (simp add: rne_def Let_def)
  show ?thesis
  proof (cases "\<lfloor>x\<rfloor> < \<lfloor>y\<rfloor>")
    case True
    then show ?thesis using bx by' by linarith
  next
    case False
    then have eq: "\<lfloor>x\<rfloor> = \<lfloor>y\<rfloor>" using fl by linarith
    have "x - of_int \<lfloor>x\<rfloor> \<le> y - of_int \<lfloor>y\<rfloor>" using xy eq by simp
    then show ?thesis unfolding rne_def Let_def eq by auto
  qed
qed

lemma rne_nonneg: "0 \<le> x \<Longrightarrow> 0 \<le> rne x"
  using rne_mono [of 0 x] rne_of_int [of 0] by simp

lemma rne_minus: "rne (- x) = - rne x"
proof (cases "x \<in> \<int>")
  case True
  then obtain k where "x = of_int k" by (auto elim: Ints_cases)
  then have "rne (- x) = rne (of_int (- k))" by simp
  also have "\<dots> = - k" by (rule rne_of_int)
  finally show ?thesis using \<open>x = of_int k\<close> by simp
next
  case False
  then have ne: "x \<noteq> of_int \<lfloor>x\<rfloor>" by (metis Ints_of_int)
  then have fl: "\<lfloor>- x\<rfloor> = - \<lfloor>x\<rfloor> - 1"
    by (simp add: floor_minus ceiling_altdef)
  have d: "x - of_int \<lfloor>x\<rfloor> \<noteq> 0" using ne by simp
  show ?thesis
    unfolding rne_def Let_def fl
    by (auto simp: algebra_simps)
qed

lemma rne_close: "\<bar>of_int (rne x) - x\<bar> \<le> 1 / 2"
  unfolding rne_def Let_def by (auto; linarith)

lemma expo_up_spec:
  "1 \<le> y \<Longrightarrow>
   e \<le> expo_up n e y \<and> expo_up n e y \<le> e + int n \<and>
   1 \<le> y * pow2 (e - expo_up n e y) \<and>
   (y * pow2 (e - expo_up n e y) < 2 \<or> expo_up n e y = e + int n)"
proof (induction n e y rule: expo_up.induct)
  case (1 n e x)
  show ?case
  proof (cases "n = 0 \<or> x < 2")
    case True
    then have r: "expo_up n e x = e" by (simp add: expo_up.simps)
    show ?thesis unfolding r using True "1.prems" by auto
  next
    case False
    then have r: "expo_up n e x = expo_up (n - 1) (e + 1) (x / 2)"
      by (simp add: expo_up.simps)
    have h: "1 \<le> x / 2" using False by simp
    note ih = "1.IH" [OF False h]
    have p: "pow2 (e - expo_up (n - 1) (e + 1) (x / 2)) =
        pow2 (e + 1 - expo_up (n - 1) (e + 1) (x / 2)) / 2"
      using pow2_Suc [of "e - expo_up (n - 1) (e + 1) (x / 2)"] by (simp add: algebra_simps)
    have n: "int (n - 1) = int n - 1" using False by simp
    show ?thesis unfolding r p using ih n by auto
  qed
qed

lemma expo_down_spec:
  "0 \<le> y \<Longrightarrow> y < 2 \<Longrightarrow>
   e - int n \<le> expo_down n e y \<and> expo_down n e y \<le> e \<and>
   y * pow2 (e - expo_down n e y) < 2 \<and>
   (1 \<le> y * pow2 (e - expo_down n e y) \<or> expo_down n e y = e - int n)"
proof (induction n e y rule: expo_down.induct)
  case (1 n e x)
  show ?case
  proof (cases "n = 0 \<or> 1 \<le> x")
    case True
    then have r: "expo_down n e x = e" by (simp add: expo_down.simps)
    show ?thesis unfolding r using True "1.prems" by auto
  next
    case False
    then have r: "expo_down n e x = expo_down (n - 1) (e - 1) (2 * x)"
      by (simp add: expo_down.simps)
    have h: "0 \<le> 2 * x" "2 * x < 2" using False "1.prems" by simp_all
    note ih = "1.IH" [OF False h]
    have p: "pow2 (e - expo_down (n - 1) (e - 1) (2 * x)) =
        2 * pow2 (e - 1 - expo_down (n - 1) (e - 1) (2 * x))"
      using pow2_Suc [of "e - 1 - expo_down (n - 1) (e - 1) (2 * x)"] by (simp add: algebra_simps)
    have n: "int (n - 1) = int n - 1" using False by simp
    show ?thesis unfolding r p using ih n by (auto simp: algebra_simps)
  qed
qed

lemma expo_range: "0 \<le> x \<Longrightarrow> - 1022 \<le> expo x \<and> expo x \<le> 1024"
  using expo_up_spec [of x 0 1024] expo_down_spec [of x 0 1022]
  by (auto simp: expo_def)

lemma expo_lower: "0 \<le> x \<Longrightarrow> pow2 (expo x) \<le> x \<or> expo x = - 1022"
proof (cases "1 \<le> x")
  case True
  then have "1 \<le> x * pow2 (0 - expo x)"
    using expo_up_spec [of x 0 1024] by (simp add: expo_def)
  then have "1 \<le> x / pow2 (expo x)" by (simp add: pow2_minus)
  then show ?thesis by (simp add: field_simps)
next
  case False
  assume x: "0 \<le> x"
  then have "1 \<le> x * pow2 (0 - expo x) \<or> expo x = - 1022"
    using False expo_down_spec [of x 0 1022] by (simp add: expo_def)
  then have "1 \<le> x / pow2 (expo x) \<or> expo x = - 1022" by (simp add: pow2_minus)
  then show ?thesis by (auto simp: field_simps)
qed

lemma expo_upper: "0 \<le> x \<Longrightarrow> x < pow2 (expo x + 1) \<or> expo x = 1024"
proof (cases "1 \<le> x")
  case True
  then have "x * pow2 (0 - expo x) < 2 \<or> expo x = 1024"
    using expo_up_spec [of x 0 1024] by (simp add: expo_def)
  then have "x / pow2 (expo x) < 2 \<or> expo x = 1024" by (simp add: pow2_minus)
  then show ?thesis using pow2_Suc [of "expo x"] by (auto simp: field_simps)
next
  case False
  assume x: "0 \<le> x"
  then have "x * pow2 (0 - expo x) < 2"
    using False expo_down_spec [of x 0 1022] by (simp add: expo_def)
  then have "x / pow2 (expo x) < 2" by (simp add: pow2_minus)
  then show ?thesis using pow2_Suc [of "expo x"] by (auto simp: field_simps)
qed

lemma expo_mono:
  assumes "0 \<le> x" and "x \<le> y"
  shows "expo x \<le> expo y"
proof (rule ccontr)
  assume "\<not> expo x \<le> expo y"
  then have lt: "expo y < expo x" by simp
  have y0: "0 \<le> y" using assms by simp
  have "expo x \<noteq> - 1022" using lt expo_range [OF y0] by linarith
  then have a: "pow2 (expo x) \<le> x" using expo_lower [OF assms(1)] by blast
  have "expo y \<noteq> 1024" using lt expo_range [OF assms(1)] by linarith
  then have b: "y < pow2 (expo y + 1)" using expo_upper [OF y0] by blast
  have "pow2 (expo y + 1) \<le> pow2 (expo x)" using lt by (intro pow2_mono) simp
  with a b assms(2) show False by linarith
qed

lemma round_fin_0 [simp]: "round_fin 0 = 0"
  by (simp add: round_fin_def)

lemma round_fin_minus: "round_fin (- x) = - round_fin x"
  by (simp add: round_fin_def Let_def rne_minus)

lemma round_fin_nonneg: "0 \<le> x \<Longrightarrow> 0 \<le> round_fin x"
  by (simp add: round_fin_def Let_def rne_nonneg)

lemma round_fin_multiple:
  assumes "x = of_int m * pow2 (expo \<bar>x\<bar> - 52)"
  shows "round_fin x = x"
proof -
  let ?q = "pow2 (expo \<bar>x\<bar> - 52)"
  have "x / ?q = of_int m * ?q / ?q" using assms by simp
  then have "x / ?q = of_int m" by simp
  then have "rne (x / ?q) = m" by simp
  then show ?thesis using assms by (simp add: round_fin_def Let_def)
qed

lemma pow2_le_imp_le:
  assumes "pow2 a \<le> pow2 b"
  shows "a \<le> b"
proof (rule ccontr)
  assume "\<not> a \<le> b"
  then have "b + 1 \<le> a" by simp
  then have "pow2 (b + 1) \<le> pow2 a" by (rule pow2_mono)
  then show False using assms pow2_Suc [of b] pow2_pos [of b] by linarith
qed

lemma round_fin_int:
  assumes "\<bar>k\<bar> \<le> 2 ^ 53"
  shows "round_fin (of_int k) = of_int k"
proof (cases "k = 0")
  case True
  then show ?thesis by simp
next
  case False
  let ?a = "\<bar>real_of_int k\<bar>"
  let ?e = "expo ?a"
  have a1: "1 \<le> ?a" using False by (simp flip: of_int_abs)
  have a53: "?a \<le> pow2 53"
  proof -
    have "real_of_int \<bar>k\<bar> \<le> real_of_int (2 ^ 53)" using assms by (simp only: of_int_le_iff)
    then show ?thesis by (simp add: pow2_def)
  qed
  have e0: "0 \<le> ?e" using expo_up_spec [OF a1, of 0 1024] a1 by (simp add: expo_def)
  then have "pow2 ?e \<le> ?a" using expo_lower [of ?a] by auto
  then have "pow2 ?e \<le> pow2 53" using a53 by linarith
  then have e53: "?e \<le> 53" by (rule pow2_le_imp_le)
  show ?thesis
  proof (cases "?e \<le> 52")
    case True
    have q: "pow2 (?e - 52) = 1 / 2 ^ nat (52 - ?e)"
      using True pow2_minus [of "52 - ?e"] by (simp add: pow2_def)
    have "real_of_int k = of_int (k * 2 ^ nat (52 - ?e)) * pow2 (?e - 52)"
      unfolding q by simp
    then show ?thesis by (rule round_fin_multiple)
  next
    case False
    then have e: "?e = 53" using e53 by simp
    have "pow2 53 \<le> ?a" using \<open>pow2 ?e \<le> ?a\<close> e by simp
    then have "?a = pow2 53" using a53 by simp
    then have "real_of_int \<bar>k\<bar> = real_of_int (2 ^ 53)" by (simp add: pow2_def)
    then have k: "\<bar>k\<bar> = 2 ^ 53" by (simp only: of_int_eq_iff)
    have q: "pow2 (?e - 52) = 2" using e by simp
    have "k = 2 ^ 53 \<or> k = - (2 ^ 53)" using k by linarith
    then have "real_of_int k = of_int (k div 2) * pow2 (?e - 52)"
      unfolding q by auto
    then show ?thesis by (rule round_fin_multiple)
  qed
qed

lemma round_fin_le_pow2:
  assumes x: "0 \<le> x" and e: "expo x \<noteq> 1024"
  shows "round_fin x \<le> pow2 (expo x + 1)"
proof -
  let ?q = "pow2 (expo x - 52)"
  have "x < pow2 (expo x + 1)" using expo_upper [OF x] e by blast
  moreover have "pow2 (expo x + 1) = 2 ^ 53 * ?q"
    using pow2_add [of "expo x - 52" 53] by (simp only: pow2_53) (simp add: algebra_simps)
  ultimately have "x / ?q \<le> of_int (2 ^ 53)" by (simp add: field_simps)
  then have "rne (x / ?q) \<le> rne (of_int (2 ^ 53))" by (rule rne_mono)
  then have "rne (x / ?q) \<le> 2 ^ 53" by (simp only: rne_of_int)
  then have "real_of_int (rne (x / ?q)) \<le> 2 ^ 53"
    by (metis of_int_le_iff of_int_numeral of_int_power)
  then have "real_of_int (rne (x / ?q)) * ?q \<le> 2 ^ 53 * ?q"
    by (simp add: mult_right_mono)
  then show ?thesis
    using x \<open>pow2 (expo x + 1) = 2 ^ 53 * ?q\<close> by (simp add: round_fin_def Let_def)
qed

lemma round_fin_ge_pow2:
  assumes x: "0 \<le> x" and e: "expo x \<noteq> - 1022"
  shows "pow2 (expo x) \<le> round_fin x"
proof -
  let ?q = "pow2 (expo x - 52)"
  have "pow2 (expo x) \<le> x" using expo_lower [OF x] e by blast
  moreover have p: "pow2 (expo x) = 2 ^ 52 * ?q"
    using pow2_add [of "expo x - 52" 52] by (simp only: pow2_52) (simp add: algebra_simps)
  ultimately have "of_int (2 ^ 52) \<le> x / ?q" by (simp add: field_simps)
  then have "rne (of_int (2 ^ 52)) \<le> rne (x / ?q)" by (rule rne_mono)
  then have "2 ^ 52 \<le> rne (x / ?q)" by (simp only: rne_of_int)
  then have "2 ^ 52 \<le> real_of_int (rne (x / ?q))"
    by (metis of_int_le_iff of_int_numeral of_int_power)
  then have "2 ^ 52 * ?q \<le> real_of_int (rne (x / ?q)) * ?q"
    by (simp add: mult_right_mono)
  then show ?thesis
    using x p by (simp add: round_fin_def Let_def)
qed

lemma round_fin_mono_nonneg:
  assumes x: "0 \<le> x" and xy: "x \<le> y"
  shows "round_fin x \<le> round_fin y"
proof -
  have y: "0 \<le> y" using x xy by simp
  have le: "expo x \<le> expo y" using x xy by (rule expo_mono)
  show ?thesis
  proof (cases "expo x = expo y")
    case True
    let ?q = "pow2 (expo x - 52)"
    have "x / ?q \<le> y / ?q" using xy by (intro divide_right_mono) simp_all
    then have "rne (x / ?q) \<le> rne (y / ?q)" by (rule rne_mono)
    then have "real_of_int (rne (x / ?q)) * ?q \<le> real_of_int (rne (y / ?q)) * ?q"
      by (simp add: mult_right_mono)
    then show ?thesis using x y True by (simp add: round_fin_def Let_def)
  next
    case False
    then have lt: "expo x < expo y" using le by simp
    have "expo x \<noteq> 1024" using lt expo_range [OF y] by linarith
    then have a: "round_fin x \<le> pow2 (expo x + 1)" using x by (intro round_fin_le_pow2)
    have "expo y \<noteq> - 1022" using lt expo_range [OF x] by linarith
    then have b: "pow2 (expo y) \<le> round_fin y" using y by (intro round_fin_ge_pow2)
    have "pow2 (expo x + 1) \<le> pow2 (expo y)" using lt by (intro pow2_mono) simp
    with a b show ?thesis by linarith
  qed
qed

lemma round_fin_mono:
  assumes "x \<le> y"
  shows "round_fin x \<le> round_fin y"
proof (cases "0 \<le> x")
  case True
  then show ?thesis using assms by (rule round_fin_mono_nonneg)
next
  case False
  show ?thesis
  proof (cases "0 \<le> y")
    case True
    have "round_fin x = - round_fin (- x)" using round_fin_minus [of "- x"] by simp
    moreover have "0 \<le> round_fin (- x)" using False by (intro round_fin_nonneg) simp
    moreover have "0 \<le> round_fin y" using True by (rule round_fin_nonneg)
    ultimately show ?thesis by linarith
  next
    case y: False
    have "round_fin (- y) \<le> round_fin (- x)"
      using y assms by (intro round_fin_mono_nonneg) simp_all
    then show ?thesis by (simp add: round_fin_minus)
  qed
qed

section \<open>Facts about the float64 operations\<close>

lemma pow2_1024_gt: "2 ^ 53 < pow2 1024"
  by (simp add: pow2_def)

lemma round64_cases:
  "round64 x = PInf \<or> round64 x = NInf \<or> round64 x = Fin (round_fin x)"
  by (simp add: round64_def Let_def)

lemma round64_not_NaN [simp]: "round64 x \<noteq> NaN"
  by (simp add: round64_def Let_def)

lemma round64_0 [simp]: "round64 0 = Fin 0"
  by (simp add: round64_def Let_def not_le)

lemma round64_bounded:
  assumes "\<bar>round_fin x\<bar> \<le> 2 ^ 53"
  shows "round64 x = Fin (round_fin x)"
  using assms pow2_1024_gt by (auto simp: round64_def Let_def)

lemma round64_int:
  assumes "\<bar>k\<bar> \<le> 2 ^ 53"
  shows "round64 (of_int k) = Fin (of_int k)"
proof -
  have r: "round_fin (of_int k) = of_int k" using assms by (rule round_fin_int)
  have "\<bar>real_of_int k\<bar> \<le> 2 ^ 53"
    using assms by (metis of_int_abs of_int_le_iff of_int_numeral of_int_power)
  then show ?thesis using round64_bounded [of "of_int k"] r by simp
qed

lemma round64_nat:
  assumes "n \<le> 2 ^ 53"
  shows "round64 (real n) = Fin (real n)"
proof -
  have "int n \<le> int (2 ^ 53)" using assms by (simp only: of_nat_le_iff)
  then have "\<bar>int n\<bar> \<le> 2 ^ 53" by simp
  from round64_int [OF this] show ?thesis by simp
qed

lemma round64_between:
  assumes "of_int a \<le> x" and "x \<le> of_int b" and "\<bar>a\<bar> \<le> 2 ^ 53" and "\<bar>b\<bar> \<le> 2 ^ 53"
  shows "round64 x = Fin (round_fin x) \<and> of_int a \<le> round_fin x \<and> round_fin x \<le> of_int b"
proof -
  have lo: "of_int a \<le> round_fin x"
    using round_fin_mono [OF assms(1)] round_fin_int [OF assms(3)] by simp
  have hi: "round_fin x \<le> of_int b"
    using round_fin_mono [OF assms(2)] round_fin_int [OF assms(4)] by simp
  have ra: "\<bar>real_of_int a\<bar> \<le> 2 ^ 53"
    using assms(3) by (metis of_int_abs of_int_le_iff of_int_numeral of_int_power)
  have rb: "\<bar>real_of_int b\<bar> \<le> 2 ^ 53"
    using assms(4) by (metis of_int_abs of_int_le_iff of_int_numeral of_int_power)
  have "\<bar>round_fin x\<bar> \<le> 2 ^ 53" using lo hi ra rb by linarith
  then show ?thesis using lo hi by (simp add: round64_bounded)
qed

lemma fadd_Fin [simp]: "fadd (Fin x) (Fin y) = round64 (x + y)"
  by (simp add: fadd_def)

lemma fadd_NaN [simp]: "fadd NaN b = NaN" "fadd a NaN = NaN"
  by (simp_all add: fadd_def split: f64.splits)

lemma fneg_simps [simp]:
  "fneg (Fin x) = Fin (- x)" "fneg PInf = NInf" "fneg NInf = PInf" "fneg NaN = NaN"
  by (simp_all add: fneg_def)

lemma fsub_Fin [simp]: "fsub (Fin x) (Fin y) = round64 (x - y)"
  by (simp add: fsub_def)

lemma fsub_NaN [simp]: "fsub NaN b = NaN" "fsub a NaN = NaN"
  by (simp_all add: fsub_def)

lemma fmul_Fin [simp]: "fmul (Fin x) (Fin y) = round64 (x * y)"
  by (simp add: fmul_def)

lemma fmul_NaN [simp]: "fmul NaN b = NaN" "fmul a NaN = NaN"
  by (simp_all add: fmul_def split: f64.splits)

lemma fdiv_Fin [simp]: "y \<noteq> 0 \<Longrightarrow> fdiv (Fin x) (Fin y) = round64 (x / y)"
  by (simp add: fdiv_def)

lemma fdiv_zero [simp]: "fdiv (Fin 0) (Fin 0) = NaN"
  by (simp add: fdiv_def)

lemma fdiv_NaN [simp]: "fdiv NaN b = NaN" "fdiv a NaN = NaN"
  by (simp_all add: fdiv_def split: f64.splits)

lemma f64_lt_Fin [simp]: "f64_lt (Fin x) (Fin y) \<longleftrightarrow> x < y"
  by (simp add: f64_lt_def)

lemma f64_le_Fin [simp]: "f64_le (Fin x) (Fin y) \<longleftrightarrow> x \<le> y"
  by (simp add: f64_le_def)

lemma f64_gt_Fin [simp]: "f64_gt (Fin x) (Fin y) \<longleftrightarrow> y < x"
  by (simp add: f64_gt_def)

lemma f64_ge_Fin [simp]: "f64_ge (Fin x) (Fin y) \<longleftrightarrow> y \<le> x"
  by (simp add: f64_ge_def)

lemma f64_lt_NaN [simp]: "\<not> f64_lt NaN b" "\<not> f64_lt a NaN"
  by (simp_all add: f64_lt_def split: f64.splits)

lemma f64_le_NaN [simp]: "\<not> f64_le NaN b" "\<not> f64_le a NaN"
  by (simp_all add: f64_le_def split: f64.splits)

lemma f64_lt_irrefl [simp]: "\<not> f64_lt a a"
  by (simp add: f64_lt_def split: f64.splits)

lemma f64_lt_asym: "f64_lt a b \<Longrightarrow> \<not> f64_lt b a"
  by (auto simp: f64_lt_def split: f64.splits)

lemma f64_lt_le: "f64_lt a b \<Longrightarrow> f64_le a b"
  by (auto simp: f64_lt_def f64_le_def split: f64.splits)

lemma f64_le_trans: "f64_le a b \<Longrightarrow> f64_le b c \<Longrightarrow> f64_le a c"
  by (auto simp: f64_le_def split: f64.splits)

lemma f64_not_lt: "a \<noteq> NaN \<Longrightarrow> b \<noteq> NaN \<Longrightarrow> \<not> f64_lt a b \<longleftrightarrow> f64_le b a"
  by (auto simp: f64_lt_def f64_le_def split: f64.splits)

lemma f64_le_refl: "a \<noteq> NaN \<Longrightarrow> f64_le a a"
  by (auto simp: f64_le_def split: f64.splits)

lemma f64_not_le: "a \<noteq> NaN \<Longrightarrow> b \<noteq> NaN \<Longrightarrow> \<not> f64_le a b \<longleftrightarrow> f64_lt b a"
  by (auto simp: f64_lt_def f64_le_def split: f64.splits)

lemma f64_lt_le_trans: "f64_lt a b \<Longrightarrow> f64_le b c \<Longrightarrow> f64_lt a c"
  by (auto simp: f64_lt_def f64_le_def split: f64.splits)

lemma f64_le_antisym: "f64_le a b \<Longrightarrow> f64_le b a \<Longrightarrow> a = b"
  by (auto simp: f64_le_def split: f64.splits)

lemma f64_le_not_lt: "f64_le a b \<Longrightarrow> \<not> f64_lt b a"
  by (auto simp: f64_lt_def f64_le_def split: f64.splits)

lemma f64_nonneg_fneg: "f64_le (Fin 0) t \<Longrightarrow> \<not> f64_lt (Fin 0) (fneg t)"
  by (auto simp: f64_lt_def f64_le_def fneg_def split: f64.splits)

lemma f64_ge_lt: "g \<noteq> NaN \<Longrightarrow> \<not> f64_ge g (Fin b) \<longleftrightarrow> f64_lt g (Fin b)"
  by (auto simp: f64_ge_def f64_le_def f64_lt_def split: f64.splits)

lemma f64_ge_trans_Fin: "f64_ge g (Fin a) \<Longrightarrow> b \<le> a \<Longrightarrow> f64_ge g (Fin b)"
  by (auto simp: f64_ge_def f64_le_def split: f64.splits)

lemma f64_ge_not_NaN: "f64_ge g b \<Longrightarrow> g \<noteq> NaN"
  by (auto simp: f64_ge_def)

lemma f64_lt_not_NaN: "f64_lt g b \<Longrightarrow> g \<noteq> NaN"
  by auto

lemma of_count_small: "n \<le> 2 ^ 53 \<Longrightarrow> of_count n = Fin (real n)"
  by (simp add: of_count_def round64_nat)

lemma of_count_0 [simp]: "of_count 0 = Fin 0"
  by (simp add: of_count_def)

lemmas round64_eval = round64_def round_fin_def expo_def expo_up.simps expo_down.simps pow2_def
  rne_def Let_def

lemmas sum_eval = pairwise_sum.simps block_sum_def add_blocks.simps

section \<open>Facts about the reductions\<close>

lemma length_10_conv:
  "length xs = 10 \<longleftrightarrow>
   (\<exists>a0 a1 a2 a3 a4 a5 a6 a7 a8 a9. xs = [a0, a1, a2, a3, a4, a5, a6, a7, a8, a9])"
  by (auto simp: length_Suc_conv eval_nat_numeral)

lemma add_blocks_short: "length xs < 8 \<Longrightarrow> add_blocks r xs = r"
  by (simp add: add_blocks.simps)

lemma pairwise_sum_10:
  "pairwise_sum [a0, a1, a2, a3, a4, a5, a6, a7, a8, a9] =
     fadd (fadd (fadd (fadd (fadd a0 a1) (fadd a2 a3)) (fadd (fadd a4 a5) (fadd a6 a7))) a8) a9"
  by (simp add: pairwise_sum.simps block_sum_def add_blocks_short)

lemma np_mean_row_NaN:
  assumes "length xs = 10" and "NaN \<in> set xs"
  shows "np_mean xs = NaN"
proof -
  obtain a0 a1 a2 a3 a4 a5 a6 a7 a8 a9 where xs: "xs = [a0, a1, a2, a3, a4, a5, a6, a7, a8, a9]"
    using assms(1) unfolding length_10_conv by blast
  have "pairwise_sum xs = NaN" using assms(2) unfolding xs pairwise_sum_10 by auto
  then show ?thesis by (simp add: np_mean_def)
qed

lemma np_mean_5:
  "np_mean [a, b, c, d, e] =
     fdiv (fadd (fadd (fadd (fadd (fadd (Fin 0) a) b) c) d) e) (of_count 5)"
  by (simp add: np_mean_def pairwise_sum.simps eval_nat_numeral)

section \<open>Facts about the shape of the data\<close>

lemma valid_grades_Cons: "valid_grades (r # rs) \<longleftrightarrow> length r = 10 \<and> valid_grades rs"
  by (simp add: valid_grades_def)

lemma valid_grades_Nil: "valid_grades []"
  by (simp add: valid_grades_def)

lemma valid_grades_row: "valid_grades grades \<Longrightarrow> r \<in> set grades \<Longrightarrow> length r = 10"
  by (simp add: valid_grades_def list_all_iff)

lemma length_flatten: "valid_grades grades \<Longrightarrow> length (flatten grades) = length grades * 10"
  by (induction grades) (simp_all add: valid_grades_Cons flatten_def)

lemma np_count_map: "np_count (map P xs) = length (filter P xs)"
  by (induction xs) (simp_all add: np_count_def)

lemma students_where_Cons:
  "students_where P (x # xs) =
     (if P x then 0 # map Suc (students_where P xs) else map Suc (students_where P xs))"
proof -
  have "[0..<length (x # xs)] = 0 # map Suc [0..<length xs]"
    by (simp add: upt_conv_Cons map_Suc_upt del: upt_Suc)
  then show ?thesis
    by (simp add: students_where_def filter_map comp_def del: upt_Suc)
qed

lemma students_where_Nil: "students_where P [] = []"
  by (simp add: students_where_def)

lemma students_where_lt: "i \<in> set (students_where P xs) \<Longrightarrow> i < length xs"
  by (simp add: students_where_def)

lemma students_where_iff: "i \<in> set (students_where P xs) \<longleftrightarrow> i < length xs \<and> P (xs ! i)"
  by (auto simp: students_where_def)

lemma compress_students_where:
  "length xs = length ys \<Longrightarrow>
   map fst (filter snd (zip xs (map P ys))) = map (\<lambda>i. xs ! i) (students_where P ys)"
proof (induction xs ys rule: list_induct2)
  case Nil
  show ?case by (simp add: students_where_Nil)
next
  case (Cons x xs y ys)
  then show ?case by (simp add: students_where_Cons comp_def)
qed

lemma np_compress_map:
  "length xs = length ys \<Longrightarrow>
   np_compress xs (map P ys) = Inr (map (\<lambda>i. xs ! i) (students_where P ys))"
  by (simp add: np_compress_def compress_students_where)

lemma np_count_students_where: "np_count (map P ys) = length (students_where P ys)"
proof (induction ys)
  case Nil
  show ?case by (simp add: np_count_def students_where_Nil)
next
  case (Cons y ys)
  then show ?case by (simp add: np_count_def students_where_Cons)
qed

lemma students_where_empty_iff:
  "students_where P xs = [] \<longleftrightarrow> (\<forall>x \<in> set xs. \<not> P x)"
  by (auto simp: students_where_def filter_empty_conv all_set_conv_all_nth)

lemma map_err_all_ok:
  "(\<And>x. x \<in> set xs \<Longrightarrow> \<exists>y. f x = Inr y) \<Longrightarrow> map_err f xs = Inr (map (\<lambda>x. projr (f x)) xs)"
proof (induction xs)
  case Nil
  show ?case by simp
next
  case (Cons a xs)
  obtain y where y: "f a = Inr y" using Cons.prems by auto
  have "map_err f xs = Inr (map (\<lambda>x. projr (f x)) xs)" using Cons by simp
  then show ?case using y by simp
qed

lemma flatten_empty_iff:
  "valid_grades m \<Longrightarrow> flatten m = [] \<longleftrightarrow> m = []"
  using length_flatten [of m] by (cases m) auto

lemma valid_grades_nth_map:
  "valid_grades grades \<Longrightarrow> \<forall>i \<in> set pos. i < length grades \<Longrightarrow>
   valid_grades (map (\<lambda>i. grades ! i) pos)"
  by (simp add: valid_grades_def list_all_iff)

section \<open>Overall statistics\<close>

text \<open>
  C5. On a matrix with zero rows \<^verbatim>\<open>calculate_overall_stats\<close> does not return: the mean,
  the standard deviation and the median of no values are NaN, but the maximum of no
  values raises ValueError, so the call fails with that error and no NaN comes back.
\<close>

theorem overall_empty_fails: "calculate_overall_stats [] = Inl ValueError"
  by (simp add: calculate_overall_stats_def flatten_def np_max_def)

section \<open>Grade distribution\<close>

lemma letter_of_cases:
  "(letter_of g = Some ''A'' \<longleftrightarrow> f64_ge g (Fin 90)) \<and>
   (letter_of g = Some ''B'' \<longleftrightarrow> f64_ge g (Fin 80) \<and> f64_lt g (Fin 90)) \<and>
   (letter_of g = Some ''C'' \<longleftrightarrow> f64_ge g (Fin 70) \<and> f64_lt g (Fin 80)) \<and>
   (letter_of g = Some ''D'' \<longleftrightarrow> f64_ge g (Fin 60) \<and> f64_lt g (Fin 70)) \<and>
   (letter_of g = Some ''F'' \<longleftrightarrow> f64_lt g (Fin 60))"
proof (cases "g = NaN")
  case True
  then show ?thesis by (simp add: letter_of_def f64_ge_def)
next
  case False
  have a: "f64_ge g (Fin 90) \<Longrightarrow> f64_ge g (Fin 80)" "f64_ge g (Fin 80) \<Longrightarrow> f64_ge g (Fin 70)"
    "f64_ge g (Fin 70) \<Longrightarrow> f64_ge g (Fin 60)"
    using f64_ge_trans_Fin [of g] by auto
  show ?thesis
    using False a by (auto simp: letter_of_def f64_ge_lt [symmetric])
qed

lemma grade_ranges_letter:
  "grade_ranges xs =
     map (\<lambda>l. (l, map (\<lambda>g. letter_of g = Some l) xs)) [''A'', ''B'', ''C'', ''D'', ''F'']"
  using letter_of_cases by (simp add: grade_ranges_def)

lemma letter_partition:
  "length (filter (\<lambda>g. letter_of g = Some ''A'') xs) +
   length (filter (\<lambda>g. letter_of g = Some ''B'') xs) +
   length (filter (\<lambda>g. letter_of g = Some ''C'') xs) +
   length (filter (\<lambda>g. letter_of g = Some ''D'') xs) +
   length (filter (\<lambda>g. letter_of g = Some ''F'') xs) = length (filter (\<lambda>g. g \<noteq> NaN) xs)"
  by (induction xs) (simp_all add: letter_of_def)

lemma distribution_letter:
  "get_grade_distribution grades =
     map (\<lambda>l. (l, \<lparr>dist_count = length (filter (\<lambda>g. letter_of g = Some l) (flatten grades)),
                  dist_percentage =
                    fmul (fdiv (of_count (length (filter (\<lambda>g. letter_of g = Some l)
                                   (flatten grades))))
                            (of_count (length (flatten grades)))) (Fin 100)\<rparr>))
       [''A'', ''B'', ''C'', ''D'', ''F'']"
  by (simp add: get_grade_distribution_def grade_ranges_letter Let_def np_count_map)

text \<open>
  C4, as stated, fails in two ways. A NaN score (a cell that \<^verbatim>\<open>np.genfromtxt\<close> could not
  read) compares false with every bound and falls in no bucket: for one student with a
  NaN and nine scores of 95 the five counts add up to 9, not 10. And the percentage is
  computed as (count / total) * 100 in float64: for 11 scores of 95 among 20 it is
  55.00000000000001, not 100 * 11 / 20 = 55.
\<close>

theorem grade_distribution_claim_fails:
  "get_grade_distribution [[NaN, Fin 95, Fin 95, Fin 95, Fin 95, Fin 95, Fin 95, Fin 95, Fin 95, Fin 95]] =
     [(''A'', \<lparr>dist_count = 9, dist_percentage = Fin 90\<rparr>),
      (''B'', \<lparr>dist_count = 0, dist_percentage = Fin 0\<rparr>),
      (''C'', \<lparr>dist_count = 0, dist_percentage = Fin 0\<rparr>),
      (''D'', \<lparr>dist_count = 0, dist_percentage = Fin 0\<rparr>),
      (''F'', \<lparr>dist_count = 0, dist_percentage = Fin 0\<rparr>)] \<and>
   get_grade_distribution [[Fin 95, Fin 95, Fin 95, Fin 95, Fin 95, Fin 95, Fin 95, Fin 95, Fin 95, Fin 95],
      [Fin 95, Fin 50, Fin 50, Fin 50, Fin 50, Fin 50, Fin 50, Fin 50, Fin 50, Fin 50]] =
     [(''A'', \<lparr>dist_count = 11, dist_percentage = Fin (7740561859543041 / 140737488355328)\<rparr>),
      (''B'', \<lparr>dist_count = 0, dist_percentage = Fin 0\<rparr>),
      (''C'', \<lparr>dist_count = 0, dist_percentage = Fin 0\<rparr>),
      (''D'', \<lparr>dist_count = 0, dist_percentage = Fin 0\<rparr>),
      (''F'', \<lparr>dist_count = 9, dist_percentage = Fin 45\<rparr>)] \<and>
   (7740561859543041 / 140737488355328 :: real) \<noteq> 100 * 11 / 20"
proof -
  have a: "get_grade_distribution [[NaN, Fin 95, Fin 95, Fin 95, Fin 95, Fin 95, Fin 95, Fin 95, Fin 95, Fin 95]] =
     [(''A'', \<lparr>dist_count = 9, dist_percentage = Fin 90\<rparr>),
      (''B'', \<lparr>dist_count = 0, dist_percentage = Fin 0\<rparr>),
      (''C'', \<lparr>dist_count = 0, dist_percentage = Fin 0\<rparr>),
      (''D'', \<lparr>dist_count = 0, dist_percentage = Fin 0\<rparr>),
      (''F'', \<lparr>dist_count = 0, dist_percentage = Fin 0\<rparr>)]"
    apply (simp add: get_grade_distribution_def grade_ranges_def flatten_def np_count_def
        f64_ge_def)
    apply (simp add: of_count_def)
    apply (simp add: round64_eval)
    done
  have b: "get_grade_distribution [[Fin 95, Fin 95, Fin 95, Fin 95, Fin 95, Fin 95, Fin 95, Fin 95, Fin 95, Fin 95],
      [Fin 95, Fin 50, Fin 50, Fin 50, Fin 50, Fin 50, Fin 50, Fin 50, Fin 50, Fin 50]] =
     [(''A'', \<lparr>dist_count = 11, dist_percentage = Fin (7740561859543041 / 140737488355328)\<rparr>),
      (''B'', \<lparr>dist_count = 0, dist_percentage = Fin 0\<rparr>),
      (''C'', \<lparr>dist_count = 0, dist_percentage = Fin 0\<rparr>),
      (''D'', \<lparr>dist_count = 0, dist_percentage = Fin 0\<rparr>),
      (''F'', \<lparr>dist_count = 9, dist_percentage = Fin 45\<rparr>)]"
    apply (simp add: get_grade_distribution_def grade_ranges_def flatten_def np_count_def)
    apply (simp add: of_count_def)
    apply (simp add: round64_eval)
    done
  have c: "(7740561859543041 / 140737488355328 :: real) \<noteq> 100 * 11 / 20" by simp
  show ?thesis by (intro conjI a b c)
qed

text \<open>
  C4, amended. \<^verbatim>\<open>get_grade_distribution\<close> flattens the matrix and puts every score that
  is not NaN into exactly one of the five letter buckets (A from 90, B from 80 to below
  90, C from 70 to below 80, D from 60 to below 70, F below 60), so 90, 80, 70 and 60
  fall into the higher bucket; a NaN score falls into none. Each letter's count is the
  number of scores with that letter; the five counts add up to the number of scores
  that are not NaN, which is N * 10 when no score is NaN. Each percentage is the float64
  product by 100 of the float64 quotient count / (N * 10), NaN when N = 0.
\<close>

theorem grade_distribution_partition:
  assumes "valid_grades grades"
  shows "(\<forall>g. (letter_of g = Some ''A'' \<longleftrightarrow> f64_ge g (Fin 90)) \<and>
              (letter_of g = Some ''B'' \<longleftrightarrow> f64_ge g (Fin 80) \<and> f64_lt g (Fin 90)) \<and>
              (letter_of g = Some ''C'' \<longleftrightarrow> f64_ge g (Fin 70) \<and> f64_lt g (Fin 80)) \<and>
              (letter_of g = Some ''D'' \<longleftrightarrow> f64_ge g (Fin 60) \<and> f64_lt g (Fin 70)) \<and>
              (letter_of g = Some ''F'' \<longleftrightarrow> f64_lt g (Fin 60)) \<and>
              (letter_of g = None \<longleftrightarrow> g = NaN)) \<and>
         letter_of (Fin 90) = Some ''A'' \<and> letter_of (Fin 80) = Some ''B'' \<and>
         letter_of (Fin 70) = Some ''C'' \<and> letter_of (Fin 60) = Some ''D'' \<and>
         (\<forall>(l, msk) \<in> set (grade_ranges (flatten grades)).
            length msk = length (flatten grades) \<and>
            (\<forall>i < length (flatten grades). msk ! i \<longleftrightarrow> letter_of (flatten grades ! i) = Some l)) \<and>
         map fst (get_grade_distribution grades) = [''A'', ''B'', ''C'', ''D'', ''F''] \<and>
         (\<forall>(l, e) \<in> set (get_grade_distribution grades).
            dist_count e = length (filter (\<lambda>g. letter_of g = Some l) (flatten grades)) \<and>
            dist_percentage e =
              fmul (fdiv (of_count (dist_count e)) (of_count (length grades * 10))) (Fin 100)) \<and>
         sum_list (map (\<lambda>(l, e). dist_count e) (get_grade_distribution grades)) =
           length (filter (\<lambda>g. g \<noteq> NaN) (flatten grades)) \<and>
         (NaN \<notin> set (flatten grades) \<longrightarrow>
            sum_list (map (\<lambda>(l, e). dist_count e) (get_grade_distribution grades)) =
              length grades * 10) \<and>
         (grades = [] \<longrightarrow> (\<forall>(l, e) \<in> set (get_grade_distribution grades).
            dist_percentage e = NaN))"
proof -
  let ?a = "flatten grades"
  have len: "length ?a = length grades * 10" using assms by (rule length_flatten)
  have none: "\<forall>g. letter_of g = None \<longleftrightarrow> g = NaN" by (simp add: letter_of_def)
  have cases: "\<forall>g. (letter_of g = Some ''A'' \<longleftrightarrow> f64_ge g (Fin 90)) \<and>
              (letter_of g = Some ''B'' \<longleftrightarrow> f64_ge g (Fin 80) \<and> f64_lt g (Fin 90)) \<and>
              (letter_of g = Some ''C'' \<longleftrightarrow> f64_ge g (Fin 70) \<and> f64_lt g (Fin 80)) \<and>
              (letter_of g = Some ''D'' \<longleftrightarrow> f64_ge g (Fin 60) \<and> f64_lt g (Fin 70)) \<and>
              (letter_of g = Some ''F'' \<longleftrightarrow> f64_lt g (Fin 60)) \<and>
              (letter_of g = None \<longleftrightarrow> g = NaN)"
    using letter_of_cases by (simp add: letter_of_def)
  have bounds: "letter_of (Fin 90) = Some ''A''" "letter_of (Fin 80) = Some ''B''"
    "letter_of (Fin 70) = Some ''C''" "letter_of (Fin 60) = Some ''D''"
    by (simp_all add: letter_of_def)
  have masks: "\<forall>(l, msk) \<in> set (grade_ranges ?a).
            length msk = length ?a \<and>
            (\<forall>i < length ?a. msk ! i \<longleftrightarrow> letter_of (?a ! i) = Some l)"
    by (simp add: grade_ranges_letter)
  have entries: "\<forall>(l, e) \<in> set (get_grade_distribution grades).
            dist_count e = length (filter (\<lambda>g. letter_of g = Some l) ?a) \<and>
            dist_percentage e =
              fmul (fdiv (of_count (dist_count e)) (of_count (length grades * 10))) (Fin 100)"
    using len by (simp add: distribution_letter)
  have total: "sum_list (map (\<lambda>(l, e). dist_count e) (get_grade_distribution grades)) =
      length (filter (\<lambda>g. g \<noteq> NaN) ?a)"
    using letter_partition [of ?a] by (simp add: distribution_letter)
  have full: "NaN \<notin> set ?a \<longrightarrow>
      sum_list (map (\<lambda>(l, e). dist_count e) (get_grade_distribution grades)) =
        length grades * 10"
  proof
    assume "NaN \<notin> set ?a"
    then have "filter (\<lambda>g. g \<noteq> NaN) ?a = ?a" by (simp add: filter_id_conv) blast
    then show "sum_list (map (\<lambda>(l, e). dist_count e) (get_grade_distribution grades)) =
        length grades * 10" using total len by simp
  qed
  have keys: "map fst (get_grade_distribution grades) = [''A'', ''B'', ''C'', ''D'', ''F'']"
    by (simp add: distribution_letter)
  have emp: "grades = [] \<longrightarrow> (\<forall>(l, e) \<in> set (get_grade_distribution grades).
            dist_percentage e = NaN)"
    by (simp add: distribution_letter flatten_def)
  show ?thesis
    by (intro conjI cases bounds masks keys entries total full emp)
qed

theorem grade_distribution_partition_witness:
  "valid_grades [[Fin 95, Fin 90, Fin 85, Fin 80, Fin 75, Fin 70, Fin 65, Fin 60, Fin 55, Fin (119 / 2)]] \<and>
   NaN \<notin> set (flatten [[Fin 95, Fin 90, Fin 85, Fin 80, Fin 75, Fin 70, Fin 65, Fin 60, Fin 55, Fin (119 / 2)]]) \<and>
   get_grade_distribution [[Fin 95, Fin 90, Fin 85, Fin 80, Fin 75, Fin 70, Fin 65, Fin 60, Fin 55, Fin (119 / 2)]] =
     [(''A'', \<lparr>dist_count = 2, dist_percentage = Fin 20\<rparr>),
      (''B'', \<lparr>dist_count = 2, dist_percentage = Fin 20\<rparr>),
      (''C'', \<lparr>dist_count = 2, dist_percentage = Fin 20\<rparr>),
      (''D'', \<lparr>dist_count = 2, dist_percentage = Fin 20\<rparr>),
      (''F'', \<lparr>dist_count = 2, dist_percentage = Fin 20\<rparr>)] \<and>
   sum_list (map (\<lambda>(l, e). dist_count e) (get_grade_distribution [[Fin 95, Fin 90, Fin 85, Fin 80, Fin 75, Fin 70, Fin 65, Fin 60, Fin 55, Fin (119 / 2)]])) = 1 * 10"
proof -
  have v: "valid_grades [[Fin 95, Fin 90, Fin 85, Fin 80, Fin 75, Fin 70, Fin 65, Fin 60, Fin 55, Fin (119 / 2)]]"
    by (simp add: valid_grades_def)
  have n: "NaN \<notin> set (flatten [[Fin 95, Fin 90, Fin 85, Fin 80, Fin 75, Fin 70, Fin 65, Fin 60, Fin 55, Fin (119 / 2)]])"
    by (simp add: flatten_def)
  have d: "get_grade_distribution [[Fin 95, Fin 90, Fin 85, Fin 80, Fin 75, Fin 70, Fin 65, Fin 60, Fin 55, Fin (119 / 2)]] =
     [(''A'', \<lparr>dist_count = 2, dist_percentage = Fin 20\<rparr>),
      (''B'', \<lparr>dist_count = 2, dist_percentage = Fin 20\<rparr>),
      (''C'', \<lparr>dist_count = 2, dist_percentage = Fin 20\<rparr>),
      (''D'', \<lparr>dist_count = 2, dist_percentage = Fin 20\<rparr>),
      (''F'', \<lparr>dist_count = 2, dist_percentage = Fin 20\<rparr>)]"
    apply (simp add: get_grade_distribution_def grade_ranges_def flatten_def np_count_def)
    apply (simp add: of_count_def)
    apply (simp add: round64_eval)
    done
  note t = grade_distribution_partition [OF v]
  have s: "sum_list (map (\<lambda>(l, e). dist_count e) (get_grade_distribution [[Fin 95, Fin 90, Fin 85, Fin 80, Fin 75, Fin 70, Fin 65, Fin 60, Fin 55, Fin (119 / 2)]])) = 1 * 10"
    using t [THEN conjunct2, THEN conjunct2, THEN conjunct2, THEN conjunct2, THEN conjunct2,
        THEN conjunct2, THEN conjunct2, THEN conjunct2, THEN conjunct2, THEN conjunct1] n
    by simp
  show ?thesis by (intro conjI v n d s)
qed

lemma np_count_le: "np_count msk \<le> length msk"
  by (simp add: np_count_def)

lemma percentage_range:
  assumes "c \<le> t" and "0 < t" and "t \<le> 2 ^ 53"
  shows "\<exists>p. fmul (fdiv (of_count c) (of_count t)) (Fin 100) = Fin p \<and> 0 \<le> p \<and> p \<le> 100"
proof -
  have c: "of_count c = Fin (real c)" using assms by (intro of_count_small) simp
  have t: "of_count t = Fin (real t)" using assms by (intro of_count_small)
  have q0: "of_int 0 \<le> real c / real t" by simp
  have q1: "real c / real t \<le> of_int 1" using assms by simp
  from round64_between [OF q0 q1]
  have r: "round64 (real c / real t) = Fin (round_fin (real c / real t))"
    and r0: "0 \<le> round_fin (real c / real t)" and r1: "round_fin (real c / real t) \<le> 1"
    by simp_all
  let ?r = "round_fin (real c / real t)"
  have p0: "of_int 0 \<le> ?r * 100" using r0 by simp
  have p1: "?r * 100 \<le> of_int 100" using r1 by simp
  from round64_between [OF p0 p1]
  have "round64 (?r * 100) = Fin (round_fin (?r * 100))"
    and "0 \<le> round_fin (?r * 100)" and "round_fin (?r * 100) \<le> 100"
    by simp_all
  then show ?thesis using c t r assms(2) by simp
qed

text \<open>
  C10. The divisor of every percentage is the number of flattened grade values,
  \<open>N * 10\<close>. With at least one student it is positive, the result has its five
  entries, each percentage is the float64 product by 100 of the float64 quotient
  count / total, and (for a total that float64 represents exactly) it is a finite number
  between 0 and 100. With no student the division is 0 / 0 and every percentage is NaN;
  the function still returns its five entries (no error is raised).
\<close>

theorem percentage_divisor:
  assumes "valid_grades grades"
  shows "length (flatten grades) = length grades * 10 \<and>
         (grades \<noteq> [] \<longrightarrow>
            0 < length (flatten grades) \<and>
            map fst (get_grade_distribution grades) = [''A'', ''B'', ''C'', ''D'', ''F''] \<and>
            (\<forall>(l, e) \<in> set (get_grade_distribution grades).
               dist_percentage e =
                 fmul (fdiv (of_count (dist_count e)) (of_count (length (flatten grades))))
                   (Fin 100) \<and>
               (length (flatten grades) \<le> 2 ^ 53 \<longrightarrow>
                  (\<exists>p. dist_percentage e = Fin p \<and> 0 \<le> p \<and> p \<le> 100)))) \<and>
         get_grade_distribution [] =
           [(''A'', \<lparr>dist_count = 0, dist_percentage = NaN\<rparr>),
            (''B'', \<lparr>dist_count = 0, dist_percentage = NaN\<rparr>),
            (''C'', \<lparr>dist_count = 0, dist_percentage = NaN\<rparr>),
            (''D'', \<lparr>dist_count = 0, dist_percentage = NaN\<rparr>),
            (''F'', \<lparr>dist_count = 0, dist_percentage = NaN\<rparr>)]"
proof -
  let ?a = "flatten grades"
  have len: "length ?a = length grades * 10" using assms by (rule length_flatten)
  have pos: "grades \<noteq> [] \<Longrightarrow> 0 < length ?a" using len by simp
  have keys: "map fst (get_grade_distribution grades) = [''A'', ''B'', ''C'', ''D'', ''F'']"
    by (simp add: get_grade_distribution_def grade_ranges_def Let_def)
  have pct: "\<forall>(l, e) \<in> set (get_grade_distribution grades).
               dist_percentage e =
                 fmul (fdiv (of_count (dist_count e)) (of_count (length ?a))) (Fin 100)"
    by (simp add: get_grade_distribution_def grade_ranges_def Let_def)
  have cnt: "\<forall>(l, e) \<in> set (get_grade_distribution grades). dist_count e \<le> length ?a"
    using np_count_le [of "map P ?a" for P]
    by (simp add: get_grade_distribution_def grade_ranges_def Let_def np_count_map)
  have rng: "grades \<noteq> [] \<Longrightarrow> \<forall>(l, e) \<in> set (get_grade_distribution grades).
               length ?a \<le> 2 ^ 53 \<longrightarrow> (\<exists>p. dist_percentage e = Fin p \<and> 0 \<le> p \<and> p \<le> 100)"
  proof -
    assume ne: "grades \<noteq> []"
    show ?thesis
    proof (intro ballI, clarify)
      fix l e assume m: "(l, e) \<in> set (get_grade_distribution grades)"
        and b: "length ?a \<le> 2 ^ 53"
      have c: "dist_count e \<le> length ?a" using cnt m by blast
      have p: "dist_percentage e =
                 fmul (fdiv (of_count (dist_count e)) (of_count (length ?a))) (Fin 100)"
        using pct m by blast
      show "\<exists>p. dist_percentage e = Fin p \<and> 0 \<le> p \<and> p \<le> 100"
        unfolding p using c pos [OF ne] b by (rule percentage_range)
    qed
  qed
  have nan: "get_grade_distribution [] =
           [(''A'', \<lparr>dist_count = 0, dist_percentage = NaN\<rparr>),
            (''B'', \<lparr>dist_count = 0, dist_percentage = NaN\<rparr>),
            (''C'', \<lparr>dist_count = 0, dist_percentage = NaN\<rparr>),
            (''D'', \<lparr>dist_count = 0, dist_percentage = NaN\<rparr>),
            (''F'', \<lparr>dist_count = 0, dist_percentage = NaN\<rparr>)]"
    by (simp add: get_grade_distribution_def grade_ranges_def flatten_def np_count_def)
  have main: "grades \<noteq> [] \<longrightarrow>
            0 < length (flatten grades) \<and>
            map fst (get_grade_distribution grades) = [''A'', ''B'', ''C'', ''D'', ''F''] \<and>
            (\<forall>(l, e) \<in> set (get_grade_distribution grades).
               dist_percentage e =
                 fmul (fdiv (of_count (dist_count e)) (of_count (length (flatten grades))))
                   (Fin 100) \<and>
               (length (flatten grades) \<le> 2 ^ 53 \<longrightarrow>
                  (\<exists>p. dist_percentage e = Fin p \<and> 0 \<le> p \<and> p \<le> 100)))"
    using pos keys pct rng by blast
  show ?thesis by (intro conjI len main nan)
qed

theorem percentage_divisor_witness:
  "valid_grades [[Fin 50, Fin 50, Fin 50, Fin 50, Fin 50, Fin 50, Fin 50, Fin 50, Fin 50, Fin 50]] \<and>
   [[Fin 50, Fin 50, Fin 50, Fin 50, Fin 50, Fin 50, Fin 50, Fin 50, Fin 50, Fin 50]] \<noteq> [] \<and>
   length (flatten [[Fin 50, Fin 50, Fin 50, Fin 50, Fin 50, Fin 50, Fin 50, Fin 50, Fin 50, Fin 50]]) = 1 * 10 \<and>
   0 < length (flatten [[Fin 50, Fin 50, Fin 50, Fin 50, Fin 50, Fin 50, Fin 50, Fin 50, Fin 50, Fin 50]]) \<and>
   map fst (get_grade_distribution [[Fin 50, Fin 50, Fin 50, Fin 50, Fin 50, Fin 50, Fin 50, Fin 50, Fin 50, Fin 50]]) = [''A'', ''B'', ''C'', ''D'', ''F''] \<and>
   map (\<lambda>(l, e). dist_percentage e) (get_grade_distribution [[Fin 50, Fin 50, Fin 50, Fin 50, Fin 50, Fin 50, Fin 50, Fin 50, Fin 50, Fin 50]]) =
     map (\<lambda>(l, e). fmul (fdiv (of_count (dist_count e)) (of_count (length (flatten [[Fin 50, Fin 50, Fin 50, Fin 50, Fin 50, Fin 50, Fin 50, Fin 50, Fin 50, Fin 50]]))))
            (Fin 100))
       (get_grade_distribution [[Fin 50, Fin 50, Fin 50, Fin 50, Fin 50, Fin 50, Fin 50, Fin 50, Fin 50, Fin 50]]) \<and>
   map (\<lambda>(l, e). dist_percentage e) (get_grade_distribution [[Fin 50, Fin 50, Fin 50, Fin 50, Fin 50, Fin 50, Fin 50, Fin 50, Fin 50, Fin 50]]) =
     [Fin 0, Fin 0, Fin 0, Fin 0, Fin 100]"
proof -
  have v: "valid_grades [[Fin 50, Fin 50, Fin 50, Fin 50, Fin 50, Fin 50, Fin 50, Fin 50, Fin 50, Fin 50]]"
    by (simp add: valid_grades_def)
  have ne: "[[Fin 50, Fin 50, Fin 50, Fin 50, Fin 50, Fin 50, Fin 50, Fin 50, Fin 50, Fin 50]] \<noteq> []" by simp
  note t = percentage_divisor [OF v]
  note t2 = t [THEN conjunct2, THEN conjunct1, THEN mp, OF ne]
  have a: "length (flatten [[Fin 50, Fin 50, Fin 50, Fin 50, Fin 50, Fin 50, Fin 50, Fin 50, Fin 50, Fin 50]]) = 1 * 10"
    using t [THEN conjunct1] by simp
  have p: "0 < length (flatten [[Fin 50, Fin 50, Fin 50, Fin 50, Fin 50, Fin 50, Fin 50, Fin 50, Fin 50, Fin 50]])"
    by (rule t2 [THEN conjunct1])
  have k: "map fst (get_grade_distribution [[Fin 50, Fin 50, Fin 50, Fin 50, Fin 50, Fin 50, Fin 50, Fin 50, Fin 50, Fin 50]]) = [''A'', ''B'', ''C'', ''D'', ''F'']"
    by (rule t2 [THEN conjunct2, THEN conjunct1])
  have q: "\<forall>(l, e) \<in> set (get_grade_distribution [[Fin 50, Fin 50, Fin 50, Fin 50, Fin 50, Fin 50, Fin 50, Fin 50, Fin 50, Fin 50]]).
      dist_percentage e =
        fmul (fdiv (of_count (dist_count e)) (of_count (length (flatten [[Fin 50, Fin 50, Fin 50, Fin 50, Fin 50, Fin 50, Fin 50, Fin 50, Fin 50, Fin 50]])))) (Fin 100)"
    using t2 [THEN conjunct2, THEN conjunct2] by fast
  have m: "map (\<lambda>(l, e). dist_percentage e) (get_grade_distribution [[Fin 50, Fin 50, Fin 50, Fin 50, Fin 50, Fin 50, Fin 50, Fin 50, Fin 50, Fin 50]]) =
     map (\<lambda>(l, e). fmul (fdiv (of_count (dist_count e)) (of_count (length (flatten [[Fin 50, Fin 50, Fin 50, Fin 50, Fin 50, Fin 50, Fin 50, Fin 50, Fin 50, Fin 50]]))))
            (Fin 100))
       (get_grade_distribution [[Fin 50, Fin 50, Fin 50, Fin 50, Fin 50, Fin 50, Fin 50, Fin 50, Fin 50, Fin 50]])"
    by (rule map_cong [OF refl]) (use q in \<open>auto split: prod.splits\<close>)
  have e: "map (\<lambda>(l, e). dist_percentage e) (get_grade_distribution [[Fin 50, Fin 50, Fin 50, Fin 50, Fin 50, Fin 50, Fin 50, Fin 50, Fin 50, Fin 50]]) =
     [Fin 0, Fin 0, Fin 0, Fin 0, Fin 100]"
    apply (simp add: get_grade_distribution_def grade_ranges_def flatten_def np_count_def)
    apply (simp add: of_count_def)
    apply (simp add: round64_eval)
    done
  show ?thesis by (intro conjI v ne a p k m e)
qed

section \<open>Improvement tracking\<close>

lemma map2_fsub_map: "map2 fsub (map f xs) (map g xs) = map (\<lambda>x. fsub (f x) (g x)) xs"
  by (induction xs) simp_all

lemma improvement_delta_spec:
  "map2 fsub (np_mean_axis1 (map (drop 5) grades)) (np_mean_axis1 (map (take 5) grades))
     = map float_delta grades"
proof -
  have "np_mean_axis1 (map (drop 5) grades) = map (\<lambda>r. np_mean (drop 5 r)) grades"
    by (simp add: np_mean_axis1_def comp_def)
  moreover have "np_mean_axis1 (map (take 5) grades) = map (\<lambda>r. np_mean (take 5 r)) grades"
    by (simp add: np_mean_axis1_def comp_def)
  ultimately show ?thesis
    by (simp only: map2_fsub_map) (simp add: float_delta_def)
qed

lemma track_improvement_result:
  assumes len: "length student_ids = length grades"
  shows "track_improvement student_ids grades threshold =
     Inr \<lparr>improved =
            \<lparr>grp_count = length (students_where (\<lambda>d. f64_gt d threshold) (map float_delta grades)),
             grp_ids = map (\<lambda>i. student_ids ! i)
                         (students_where (\<lambda>d. f64_gt d threshold) (map float_delta grades)),
             grp_delta = map (\<lambda>i. map float_delta grades ! i)
                         (students_where (\<lambda>d. f64_gt d threshold) (map float_delta grades))\<rparr>,
          declined =
            \<lparr>grp_count = length (students_where (\<lambda>d. f64_lt d (fneg threshold))
                           (map float_delta grades)),
             grp_ids = map (\<lambda>i. student_ids ! i)
                         (students_where (\<lambda>d. f64_lt d (fneg threshold)) (map float_delta grades)),
             grp_delta = map (\<lambda>i. map float_delta grades ! i)
                         (students_where (\<lambda>d. f64_lt d (fneg threshold)) (map float_delta grades))\<rparr>,
          all_deltas = map float_delta grades\<rparr>"
proof -
  let ?d = "map float_delta grades"
  have l1: "length student_ids = length ?d" using len by simp
  have l2: "length ?d = length ?d" by simp
  show ?thesis
    unfolding track_improvement_def Let_def improvement_delta_spec
    by (simp only: np_compress_map [OF l1] np_compress_map [OF l2] np_count_students_where
        sum.case)
qed

text \<open>
  C3, amended. \<^verbatim>\<open>track_improvement\<close> returns for every student the float64 delta: the
  float64 mean of columns 5 to 9 minus the float64 mean of columns 0 to 4, the
  difference rounded. improved holds exactly the students whose delta compares greater
  than threshold and declined exactly those whose delta compares less than -threshold,
  in row order; all_deltas has length N. A student whose two computed semester means
  are the same finite number has delta 0, and is in neither list when threshold is not
  negative. A student whose computed delta is -threshold is not in declined.
\<close>

theorem track_improvement_spec:
  assumes "valid_grades grades" and "length student_ids = length grades"
  shows "\<exists>r. track_improvement student_ids grades threshold = Inr r \<and>
           all_deltas r = map float_delta grades \<and>
           length (all_deltas r) = length grades \<and>
           grp_ids (improved r) =
             map (\<lambda>i. student_ids ! i)
               (students_where (\<lambda>d. f64_gt d threshold) (all_deltas r)) \<and>
           grp_delta (improved r) =
             map (\<lambda>i. all_deltas r ! i)
               (students_where (\<lambda>d. f64_gt d threshold) (all_deltas r)) \<and>
           grp_count (improved r) =
             length (students_where (\<lambda>d. f64_gt d threshold) (all_deltas r)) \<and>
           grp_ids (declined r) =
             map (\<lambda>i. student_ids ! i)
               (students_where (\<lambda>d. f64_lt d (fneg threshold)) (all_deltas r)) \<and>
           grp_delta (declined r) =
             map (\<lambda>i. all_deltas r ! i)
               (students_where (\<lambda>d. f64_lt d (fneg threshold)) (all_deltas r)) \<and>
           grp_count (declined r) =
             length (students_where (\<lambda>d. f64_lt d (fneg threshold)) (all_deltas r)) \<and>
           (\<forall>i < length grades.
              (\<exists>x. np_mean (drop 5 (grades ! i)) = Fin x \<and>
                   np_mean (take 5 (grades ! i)) = Fin x) \<longrightarrow>
              all_deltas r ! i = Fin 0 \<and>
              (f64_le (Fin 0) threshold \<longrightarrow>
                 i \<notin> set (students_where (\<lambda>d. f64_gt d threshold) (all_deltas r)) \<and>
                 i \<notin> set (students_where (\<lambda>d. f64_lt d (fneg threshold)) (all_deltas r)))) \<and>
           (\<forall>i < length grades.
              all_deltas r ! i = fneg threshold \<longrightarrow>
              i \<notin> set (students_where (\<lambda>d. f64_lt d (fneg threshold)) (all_deltas r)))"
proof -
  let ?d = "map float_delta grades"
  have zero: "\<forall>i < length grades.
              (\<exists>x. np_mean (drop 5 (grades ! i)) = Fin x \<and>
                   np_mean (take 5 (grades ! i)) = Fin x) \<longrightarrow>
              ?d ! i = Fin 0 \<and>
              (f64_le (Fin 0) threshold \<longrightarrow>
                 i \<notin> set (students_where (\<lambda>d. f64_gt d threshold) ?d) \<and>
                 i \<notin> set (students_where (\<lambda>d. f64_lt d (fneg threshold)) ?d))"
  proof (intro allI impI)
    fix i assume i: "i < length grades"
      and "\<exists>x. np_mean (drop 5 (grades ! i)) = Fin x \<and> np_mean (take 5 (grades ! i)) = Fin x"
    then obtain x where "np_mean (drop 5 (grades ! i)) = Fin x"
      "np_mean (take 5 (grades ! i)) = Fin x" by blast
    then have d0: "?d ! i = Fin 0" using i by (simp add: float_delta_def)
    have "f64_le (Fin 0) threshold \<longrightarrow>
                 i \<notin> set (students_where (\<lambda>d. f64_gt d threshold) ?d) \<and>
                 i \<notin> set (students_where (\<lambda>d. f64_lt d (fneg threshold)) ?d)"
      unfolding students_where_iff d0 f64_gt_def
      using f64_le_not_lt [of "Fin 0" threshold] f64_nonneg_fneg [of threshold] by blast
    with d0 show "?d ! i = Fin 0 \<and>
              (f64_le (Fin 0) threshold \<longrightarrow>
                 i \<notin> set (students_where (\<lambda>d. f64_gt d threshold) ?d) \<and>
                 i \<notin> set (students_where (\<lambda>d. f64_lt d (fneg threshold)) ?d))" by blast
  qed
  have edge: "\<forall>i < length grades.
      ?d ! i = fneg threshold \<longrightarrow>
      i \<notin> set (students_where (\<lambda>d. f64_lt d (fneg threshold)) ?d)"
    by (simp add: students_where_iff)
  show ?thesis
    unfolding track_improvement_result [OF assms(2)]
    using zero edge by simp
qed

text \<open>
  C3, as stated, fails in three ways. With threshold -1 a student whose two semester
  means are equal (delta 0) has 0 > -1 and 0 < 1, and is listed both as improved and as
  declined. With threshold 10 a student with the scores 40, 40, 40, 40, 41 and 30, 30,
  30, 30, 31 has the exact delta -10, which is -threshold, but the float64 means 40.2
  and 30.2 differ by a little more than 10 and the student is listed as declined. With
  threshold 0 a student whose second semester has the scores of the first in another
  order (33.3, 61.1, 55.1, 83.3, 72.2) has equal exact semester means, but the float64
  sums differ with the order: the delta is not 0 and the student is listed as improved.
\<close>

theorem track_improvement_claim_fails:
  "track_improvement [7] [[Fin 50, Fin 50, Fin 50, Fin 50, Fin 50, Fin 50, Fin 50, Fin 50, Fin 50, Fin 50]] (Fin (- 1)) =
     Inr \<lparr>improved = \<lparr>grp_count = 1, grp_ids = [7], grp_delta = [Fin 0]\<rparr>,
          declined = \<lparr>grp_count = 1, grp_ids = [7], grp_delta = [Fin 0]\<rparr>,
          all_deltas = [Fin 0]\<rparr> \<and>
   track_improvement [7] [[Fin 40, Fin 40, Fin 40, Fin 40, Fin 41, Fin 30, Fin 30, Fin 30, Fin 30, Fin 31]] (Fin 10) =
     Inr \<lparr>improved = \<lparr>grp_count = 0, grp_ids = [], grp_delta = []\<rparr>,
          declined = \<lparr>grp_count = 1, grp_ids = [7],
                      grp_delta = [Fin (- (2814749767106561 / 281474976710656))]\<rparr>,
          all_deltas = [Fin (- (2814749767106561 / 281474976710656))]\<rparr> \<and>
   spec_delta [Fin 40, Fin 40, Fin 40, Fin 40, Fin 41, Fin 30, Fin 30, Fin 30, Fin 30, Fin 31] = - 10 \<and>
   track_improvement [7] [[round64 (333 / 10), round64 (611 / 10), round64 (551 / 10), round64 (833 / 10), round64 (722 / 10), round64 (611 / 10), round64 (333 / 10), round64 (722 / 10), round64 (833 / 10), round64 (551 / 10)]] (Fin 0) =
     Inr \<lparr>improved = \<lparr>grp_count = 1, grp_ids = [7], grp_delta = [Fin (1 / 70368744177664)]\<rparr>,
          declined = \<lparr>grp_count = 0, grp_ids = [], grp_delta = []\<rparr>,
          all_deltas = [Fin (1 / 70368744177664)]\<rparr> \<and>
   spec_delta [round64 (333 / 10), round64 (611 / 10), round64 (551 / 10), round64 (833 / 10), round64 (722 / 10), round64 (611 / 10), round64 (333 / 10), round64 (722 / 10), round64 (833 / 10), round64 (551 / 10)] = 0"
proof -
  have r: "round64 (333 / 10) = Fin (2343279181116211 / 70368744177664)" "round64 (611 / 10) = Fin (8599060538510541 / 140737488355328)" "round64 (551 / 10) = Fin (7754635608378573 / 140737488355328)"
    "round64 (833 / 10) = Fin (5861716389999411 / 70368744177664)" "round64 (722 / 10) = Fin (5080623329627341 / 70368744177664)"
    by (simp_all add: round64_eval)
  have m50: "np_mean [Fin 50, Fin 50, Fin 50, Fin 50, Fin 50] = Fin 50"
    unfolding np_mean_5
    apply (simp add: of_count_def)
    apply (simp add: round64_eval)
    done
  have mb1: "np_mean [Fin 40, Fin 40, Fin 40, Fin 40, Fin 41] = Fin (2828823515942093 / 70368744177664)"
    unfolding np_mean_5
    apply (simp add: of_count_def)
    apply (simp add: round64_eval)
    done
  have mb2: "np_mean [Fin 30, Fin 30, Fin 30, Fin 30, Fin 31] = Fin (8500544296661811 / 281474976710656)"
    unfolding np_mean_5
    apply (simp add: of_count_def)
    apply (simp add: round64_eval)
    done
  have db: "round64 (- (2814749767106561 / 281474976710656)) =
      Fin (- (2814749767106561 / 281474976710656))"
    by (simp add: round64_eval)
  have mc1: "np_mean [Fin (2343279181116211 / 70368744177664), Fin (8599060538510541 / 140737488355328), Fin (7754635608378573 / 140737488355328), Fin (5861716389999411 / 70368744177664), Fin (5080623329627341 / 70368744177664)] = Fin 61"
    unfolding np_mean_5
    apply (simp add: of_count_def)
    apply (simp add: round64_eval)
    done
  have mc2: "np_mean [Fin (8599060538510541 / 140737488355328), Fin (2343279181116211 / 70368744177664), Fin (5080623329627341 / 70368744177664), Fin (5861716389999411 / 70368744177664), Fin (7754635608378573 / 140737488355328)] = Fin (4292493394837505 / 70368744177664)"
    unfolding np_mean_5
    apply (simp add: of_count_def)
    apply (simp add: round64_eval)
    done
  have dc: "round64 (1 / 70368744177664) = Fin (1 / 70368744177664)"
    by (simp add: round64_eval)
  have a: "track_improvement [7] [[Fin 50, Fin 50, Fin 50, Fin 50, Fin 50, Fin 50, Fin 50, Fin 50, Fin 50, Fin 50]] (Fin (- 1)) =
     Inr \<lparr>improved = \<lparr>grp_count = 1, grp_ids = [7], grp_delta = [Fin 0]\<rparr>,
          declined = \<lparr>grp_count = 1, grp_ids = [7], grp_delta = [Fin 0]\<rparr>,
          all_deltas = [Fin 0]\<rparr>"
    by (simp add: track_improvement_def np_mean_axis1_def m50 np_compress_def np_count_def
        Let_def)
  have b: "track_improvement [7] [[Fin 40, Fin 40, Fin 40, Fin 40, Fin 41, Fin 30, Fin 30, Fin 30, Fin 30, Fin 31]] (Fin 10) =
     Inr \<lparr>improved = \<lparr>grp_count = 0, grp_ids = [], grp_delta = []\<rparr>,
          declined = \<lparr>grp_count = 1, grp_ids = [7],
                      grp_delta = [Fin (- (2814749767106561 / 281474976710656))]\<rparr>,
          all_deltas = [Fin (- (2814749767106561 / 281474976710656))]\<rparr>"
    by (simp add: track_improvement_def np_mean_axis1_def mb1 mb2 db np_compress_def
        np_count_def Let_def)
  have b': "spec_delta [Fin 40, Fin 40, Fin 40, Fin 40, Fin 41, Fin 30, Fin 30, Fin 30, Fin 30, Fin 31] = - 10"
    by (simp add: spec_delta_def spec_mean_def fin_val_def)
  have c: "track_improvement [7] [[round64 (333 / 10), round64 (611 / 10), round64 (551 / 10), round64 (833 / 10), round64 (722 / 10), round64 (611 / 10), round64 (333 / 10), round64 (722 / 10), round64 (833 / 10), round64 (551 / 10)]] (Fin 0) =
     Inr \<lparr>improved = \<lparr>grp_count = 1, grp_ids = [7], grp_delta = [Fin (1 / 70368744177664)]\<rparr>,
          declined = \<lparr>grp_count = 0, grp_ids = [], grp_delta = []\<rparr>,
          all_deltas = [Fin (1 / 70368744177664)]\<rparr>"
    unfolding r
    by (simp add: track_improvement_def np_mean_axis1_def mc1 mc2 dc np_compress_def
        np_count_def Let_def)
  have c': "spec_delta [round64 (333 / 10), round64 (611 / 10), round64 (551 / 10), round64 (833 / 10), round64 (722 / 10), round64 (611 / 10), round64 (333 / 10), round64 (722 / 10), round64 (833 / 10), round64 (551 / 10)] = 0"
    unfolding r by (simp add: spec_delta_def spec_mean_def fin_val_def)
  show ?thesis by (intro conjI a b b' c c')
qed

theorem track_improvement_spec_witness:
  "valid_grades [[Fin 90, Fin 90, Fin 90, Fin 90, Fin 90, Fin 95, Fin 95, Fin 95, Fin 95, Fin 95],
      [Fin 40, Fin 40, Fin 40, Fin 40, Fin 40, Fin 30, Fin 30, Fin 30, Fin 30, Fin 30],
      [Fin 50, Fin 50, Fin 50, Fin 50, Fin 50, Fin 70, Fin 70, Fin 70, Fin 70, Fin 70],
      [Fin 60, Fin 60, Fin 60, Fin 60, Fin 60, Fin 60, Fin 60, Fin 60, Fin 60, Fin 60]] \<and>
   length [101, 102, 103, 104 :: int] = length [[Fin 90, Fin 90, Fin 90, Fin 90, Fin 90, Fin 95, Fin 95, Fin 95, Fin 95, Fin 95],
      [Fin 40, Fin 40, Fin 40, Fin 40, Fin 40, Fin 30, Fin 30, Fin 30, Fin 30, Fin 30],
      [Fin 50, Fin 50, Fin 50, Fin 50, Fin 50, Fin 70, Fin 70, Fin 70, Fin 70, Fin 70],
      [Fin 60, Fin 60, Fin 60, Fin 60, Fin 60, Fin 60, Fin 60, Fin 60, Fin 60, Fin 60]] \<and>
   f64_le (Fin 0) (Fin 10) \<and>
   track_improvement [101, 102, 103, 104] [[Fin 90, Fin 90, Fin 90, Fin 90, Fin 90, Fin 95, Fin 95, Fin 95, Fin 95, Fin 95],
      [Fin 40, Fin 40, Fin 40, Fin 40, Fin 40, Fin 30, Fin 30, Fin 30, Fin 30, Fin 30],
      [Fin 50, Fin 50, Fin 50, Fin 50, Fin 50, Fin 70, Fin 70, Fin 70, Fin 70, Fin 70],
      [Fin 60, Fin 60, Fin 60, Fin 60, Fin 60, Fin 60, Fin 60, Fin 60, Fin 60, Fin 60]] (Fin 10) =
     Inr \<lparr>improved = \<lparr>grp_count = 1, grp_ids = [103], grp_delta = [Fin 20]\<rparr>,
          declined = \<lparr>grp_count = 0, grp_ids = [], grp_delta = []\<rparr>,
          all_deltas = [Fin 5, Fin (- 10), Fin 20, Fin 0]\<rparr>"
proof -
  have v: "valid_grades [[Fin 90, Fin 90, Fin 90, Fin 90, Fin 90, Fin 95, Fin 95, Fin 95, Fin 95, Fin 95],
      [Fin 40, Fin 40, Fin 40, Fin 40, Fin 40, Fin 30, Fin 30, Fin 30, Fin 30, Fin 30],
      [Fin 50, Fin 50, Fin 50, Fin 50, Fin 50, Fin 70, Fin 70, Fin 70, Fin 70, Fin 70],
      [Fin 60, Fin 60, Fin 60, Fin 60, Fin 60, Fin 60, Fin 60, Fin 60, Fin 60, Fin 60]]"
    by (simp add: valid_grades_def)
  have l: "length [101, 102, 103, 104 :: int] = length [[Fin 90, Fin 90, Fin 90, Fin 90, Fin 90, Fin 95, Fin 95, Fin 95, Fin 95, Fin 95],
      [Fin 40, Fin 40, Fin 40, Fin 40, Fin 40, Fin 30, Fin 30, Fin 30, Fin 30, Fin 30],
      [Fin 50, Fin 50, Fin 50, Fin 50, Fin 50, Fin 70, Fin 70, Fin 70, Fin 70, Fin 70],
      [Fin 60, Fin 60, Fin 60, Fin 60, Fin 60, Fin 60, Fin 60, Fin 60, Fin 60, Fin 60]]"
    by simp
  obtain r where r: "track_improvement [101, 102, 103, 104] [[Fin 90, Fin 90, Fin 90, Fin 90, Fin 90, Fin 95, Fin 95, Fin 95, Fin 95, Fin 95],
      [Fin 40, Fin 40, Fin 40, Fin 40, Fin 40, Fin 30, Fin 30, Fin 30, Fin 30, Fin 30],
      [Fin 50, Fin 50, Fin 50, Fin 50, Fin 50, Fin 70, Fin 70, Fin 70, Fin 70, Fin 70],
      [Fin 60, Fin 60, Fin 60, Fin 60, Fin 60, Fin 60, Fin 60, Fin 60, Fin 60, Fin 60]] (Fin 10) = Inr r"
    using track_improvement_spec [OF v l, of "Fin 10"] by blast
  have m90: "np_mean [Fin 90, Fin 90, Fin 90, Fin 90, Fin 90] = Fin 90"
    unfolding np_mean_5
    apply (simp add: of_count_def)
    apply (simp add: round64_eval)
    done
  have m95: "np_mean [Fin 95, Fin 95, Fin 95, Fin 95, Fin 95] = Fin 95"
    unfolding np_mean_5
    apply (simp add: of_count_def)
    apply (simp add: round64_eval)
    done
  have m40: "np_mean [Fin 40, Fin 40, Fin 40, Fin 40, Fin 40] = Fin 40"
    unfolding np_mean_5
    apply (simp add: of_count_def)
    apply (simp add: round64_eval)
    done
  have m30: "np_mean [Fin 30, Fin 30, Fin 30, Fin 30, Fin 30] = Fin 30"
    unfolding np_mean_5
    apply (simp add: of_count_def)
    apply (simp add: round64_eval)
    done
  have m50: "np_mean [Fin 50, Fin 50, Fin 50, Fin 50, Fin 50] = Fin 50"
    unfolding np_mean_5
    apply (simp add: of_count_def)
    apply (simp add: round64_eval)
    done
  have m70: "np_mean [Fin 70, Fin 70, Fin 70, Fin 70, Fin 70] = Fin 70"
    unfolding np_mean_5
    apply (simp add: of_count_def)
    apply (simp add: round64_eval)
    done
  have m60: "np_mean [Fin 60, Fin 60, Fin 60, Fin 60, Fin 60] = Fin 60"
    unfolding np_mean_5
    apply (simp add: of_count_def)
    apply (simp add: round64_eval)
    done
  have d: "round64 5 = Fin 5" "round64 (- 10) = Fin (- 10)" "round64 20 = Fin 20"
    by (simp_all add: round64_eval)
  have e: "track_improvement [101, 102, 103, 104] [[Fin 90, Fin 90, Fin 90, Fin 90, Fin 90, Fin 95, Fin 95, Fin 95, Fin 95, Fin 95],
      [Fin 40, Fin 40, Fin 40, Fin 40, Fin 40, Fin 30, Fin 30, Fin 30, Fin 30, Fin 30],
      [Fin 50, Fin 50, Fin 50, Fin 50, Fin 50, Fin 70, Fin 70, Fin 70, Fin 70, Fin 70],
      [Fin 60, Fin 60, Fin 60, Fin 60, Fin 60, Fin 60, Fin 60, Fin 60, Fin 60, Fin 60]] (Fin 10) =
     Inr \<lparr>improved = \<lparr>grp_count = 1, grp_ids = [103], grp_delta = [Fin 20]\<rparr>,
          declined = \<lparr>grp_count = 0, grp_ids = [], grp_delta = []\<rparr>,
          all_deltas = [Fin 5, Fin (- 10), Fin 20, Fin 0]\<rparr>"
    by (simp add: track_improvement_def np_mean_axis1_def m90 m95 m40 m30 m50 m70 m60 d
        np_compress_def np_count_def Let_def)
  have z: "f64_le (Fin 0) (Fin 10)" by simp
  from r e show ?thesis by (intro conjI v l z e)
qed

section \<open>Students at risk\<close>

lemma argmin_loop_spec:
  assumes "length pre = i" and "mi < i" and "pre ! mi = mv"
    and "\<forall>x \<in> set pre. f64_le mv x" and "\<forall>j < mi. f64_lt mv (pre ! j)"
    and "NaN \<notin> set (pre @ xs)"
  shows "argmin_loop xs i mv mi < i + length xs \<and>
         (\<forall>x \<in> set (pre @ xs). f64_le ((pre @ xs) ! argmin_loop xs i mv mi) x) \<and>
         (\<forall>j < argmin_loop xs i mv mi.
            f64_lt ((pre @ xs) ! argmin_loop xs i mv mi) ((pre @ xs) ! j))"
  using assms
proof (induction xs arbitrary: pre i mv mi)
  case Nil
  then show ?case by simp
next
  case (Cons x xs)
  let ?pre = "pre @ [x]"
  have xn: "x \<noteq> NaN" using Cons.prems(6) by auto
  have "pre ! mi \<in> set pre" using Cons.prems(1,2) by simp
  then have mn: "mv \<noteq> NaN" using Cons.prems(3,6) by auto
  have 6: "NaN \<notin> set (?pre @ xs)" using Cons.prems(6) by simp
  have 1: "length ?pre = Suc i" using Cons.prems by simp
  show ?case
  proof (cases "f64_lt x mv")
    case True
    then have c: "\<not> f64_ge x mv" using xn mn by (simp add: f64_ge_def f64_not_le)
    have 2: "i < Suc i" by simp
    have 3: "?pre ! i = x" using Cons.prems by (simp add: nth_append)
    have 4: "\<forall>y \<in> set ?pre. f64_le x y"
    proof
      fix y assume "y \<in> set ?pre"
      then consider "y = x" | "y \<in> set pre" by auto
      then show "f64_le x y"
      proof cases
        case 1
        then show ?thesis using xn by (simp add: f64_le_refl)
      next
        case 2
        then have "f64_le mv y" using Cons.prems(4) by blast
        with True have "f64_lt x y" by (rule f64_lt_le_trans)
        then show ?thesis by (rule f64_lt_le)
      qed
    qed
    have 5: "\<forall>j < i. f64_lt x (?pre ! j)"
    proof (intro allI impI)
      fix j assume j: "j < i"
      then have "pre ! j \<in> set pre" using Cons.prems by simp
      then have "f64_le mv (pre ! j)" using Cons.prems by blast
      with True have "f64_lt x (pre ! j)" by (rule f64_lt_le_trans)
      moreover have "?pre ! j = pre ! j" using j Cons.prems(1) by (simp add: nth_append)
      ultimately show "f64_lt x (?pre ! j)" by simp
    qed
    from Cons.IH [OF 1 2 3 4 5 6] c xn show ?thesis by simp
  next
    case False
    then have c: "f64_ge x mv" using xn mn by (simp add: f64_ge_def f64_not_lt)
    have 2: "mi < Suc i" using Cons.prems by simp
    have 3: "?pre ! mi = mv" using Cons.prems by (simp add: nth_append)
    have 4: "\<forall>y \<in> set ?pre. f64_le mv y" using Cons.prems c by (auto simp: f64_ge_def)
    have 5: "\<forall>j < mi. f64_lt mv (?pre ! j)" using Cons.prems by (simp add: nth_append)
    from Cons.IH [OF 1 2 3 4 5 6] c show ?thesis by simp
  qed
qed

lemma np_argmin_spec:
  assumes "xs \<noteq> []" and "NaN \<notin> set xs"
  shows "\<exists>k. np_argmin xs = Inr k \<and> k < length xs \<and> (\<forall>y \<in> set xs. f64_le (xs ! k) y) \<and>
             (\<forall>j < k. f64_lt (xs ! k) (xs ! j))"
proof -
  obtain x rest where xs: "xs = x # rest" using assms by (cases xs) auto
  let ?k = "argmin_loop rest 1 x 0"
  have xn: "x \<noteq> NaN" using assms(2) xs by auto
  have "?k < 1 + length rest \<and> (\<forall>y \<in> set ([x] @ rest). f64_le (([x] @ rest) ! ?k) y) \<and>
        (\<forall>j < ?k. f64_lt (([x] @ rest) ! ?k) (([x] @ rest) ! j))"
    using assms(2) xn by (intro argmin_loop_spec) (simp_all add: xs f64_le_refl)
  then show ?thesis using xn by (simp add: np_argmin_def xs)
qed

lemma foldl_fmin_spec:
  "NaN \<notin> set (x # xs) \<Longrightarrow>
   foldl fmin x xs \<in> set (x # xs) \<and> (\<forall>y \<in> set (x # xs). f64_le (foldl fmin x xs) y)"
proof (induction xs arbitrary: x)
  case Nil
  then show ?case by (simp add: f64_le_refl)
next
  case (Cons a xs)
  have xn: "x \<noteq> NaN" and an: "a \<noteq> NaN" using Cons.prems by auto
  show ?case
  proof (cases "f64_lt a x")
    case True
    then have m: "fmin x a = a" using xn an by (simp add: fmin_def)
    have "NaN \<notin> set (a # xs)" using Cons.prems by simp
    from Cons.IH [OF this] have in_set: "foldl fmin a xs \<in> set (a # xs)"
      and le: "\<forall>y \<in> set (a # xs). f64_le (foldl fmin a xs) y" by simp_all
    have "f64_le (foldl fmin a xs) a" using le by simp
    then have "f64_le (foldl fmin a xs) x" using True f64_lt_le f64_le_trans by blast
    then show ?thesis using in_set le by (auto simp: m)
  next
    case False
    then have m: "fmin x a = x" using xn an by (simp add: fmin_def)
    have ax: "f64_le x a" using False xn an by (simp add: f64_not_lt)
    have "NaN \<notin> set (x # xs)" using Cons.prems by simp
    from Cons.IH [OF this] have in_set: "foldl fmin x xs \<in> set (x # xs)"
      and le: "\<forall>y \<in> set (x # xs). f64_le (foldl fmin x xs) y" by simp_all
    have "f64_le (foldl fmin x xs) x" using le by simp
    then have "f64_le (foldl fmin x xs) a" using ax f64_le_trans by blast
    then show ?thesis using in_set le by (auto simp: m)
  qed
qed

lemma np_min_spec:
  assumes "xs \<noteq> []" and "NaN \<notin> set xs"
  shows "\<exists>m. np_min xs = Inr m \<and> m \<in> set xs \<and> (\<forall>y \<in> set xs. f64_le m y)"
proof -
  obtain x rest where xs: "xs = x # rest" using assms by (cases xs) auto
  from foldl_fmin_spec [of x rest] assms(2) show ?thesis by (simp add: np_min_def xs)
qed

lemma at_risk_row:
  assumes v: "valid_grades grades"
    and i: "i \<in> set (students_where (\<lambda>a. f64_lt a threshold) (map np_mean grades))"
  shows "length (grades ! i) = 10 \<and> NaN \<notin> set (grades ! i) \<and> grades ! i \<noteq> []"
proof -
  have lt: "i < length grades" and below: "f64_lt (np_mean (grades ! i)) threshold"
    using i by (auto simp: students_where_iff)
  have len: "length (grades ! i) = 10" using v lt by (intro valid_grades_row [OF v]) simp
  have "NaN \<notin> set (grades ! i)"
  proof
    assume "NaN \<in> set (grades ! i)"
    with len have "np_mean (grades ! i) = NaN" by (rule np_mean_row_NaN)
    with below show False by simp
  qed
  with len show ?thesis by auto
qed

lemma identify_at_risk_result:
  assumes v: "valid_grades grades" and len: "length student_ids = length grades"
  shows "identify_at_risk student_ids grades threshold =
     Inr \<lparr>risk_count = length (students_where (\<lambda>a. f64_lt a threshold) (map np_mean grades)),
          risk_ids = map (\<lambda>i. student_ids ! i)
                       (students_where (\<lambda>a. f64_lt a threshold) (map np_mean grades)),
          risk_averages = map (\<lambda>i. map np_mean grades ! i)
                       (students_where (\<lambda>a. f64_lt a threshold) (map np_mean grades)),
          weakest_subject_idx = map (\<lambda>i. projr (np_argmin (grades ! i)))
                       (students_where (\<lambda>a. f64_lt a threshold) (map np_mean grades)),
          weakest_scores = map (\<lambda>i. projr (np_min (grades ! i)))
                       (students_where (\<lambda>a. f64_lt a threshold) (map np_mean grades))\<rparr>"
proof -
  let ?avg = "map np_mean grades"
  let ?pos = "students_where (\<lambda>a. f64_lt a threshold) ?avg"
  let ?rows = "map (\<lambda>i. grades ! i) ?pos"
  have l0: "length grades = length ?avg" by simp
  have l1: "length student_ids = length ?avg" using len by simp
  have l2: "length ?avg = length ?avg" by simp
  have pos_lt: "\<forall>i \<in> set ?pos. i < length grades"
    using students_where_lt [of _ "\<lambda>a. f64_lt a threshold" ?avg] by auto
  have vr: "valid_grades ?rows" using v pos_lt by (rule valid_grades_nth_map)
  have row: "r \<noteq> [] \<and> NaN \<notin> set r" if "r \<in> set ?rows" for r
    using that at_risk_row [OF v] by auto
  have am: "map_err np_argmin ?rows = Inr (map (\<lambda>r. projr (np_argmin r)) ?rows)"
  proof (rule map_err_all_ok)
    fix r assume "r \<in> set ?rows"
    then have "r \<noteq> []" "NaN \<notin> set r" using row by blast+
    from np_argmin_spec [OF this] show "\<exists>y. np_argmin r = Inr y" by blast
  qed
  have mn: "map_err np_min ?rows = Inr (map (\<lambda>r. projr (np_min r)) ?rows)"
  proof (rule map_err_all_ok)
    fix r assume "r \<in> set ?rows"
    then have "r \<noteq> []" "NaN \<notin> set r" using row by blast+
    from np_min_spec [OF this] show "\<exists>y. np_min r = Inr y" by blast
  qed
  have mn': "map (\<lambda>r. projr (np_min r)) ?rows = map (\<lambda>i. projr (np_min (grades ! i))) ?pos"
    by simp
  have am': "map (\<lambda>r. projr (np_argmin r)) ?rows = map (\<lambda>i. projr (np_argmin (grades ! i))) ?pos"
    by simp
  have fe: "flatten ?rows = [] \<longleftrightarrow> ?pos = []"
    using flatten_empty_iff [OF vr] by simp
  show ?thesis
  proof (cases "?pos = []")
    case True
    then show ?thesis
      unfolding identify_at_risk_def Let_def np_mean_axis1_def
      by (simp only: np_compress_map [OF l0] np_compress_map [OF l1] np_compress_map [OF l2]
          np_count_students_where sum.case) (simp add: flatten_def)
  next
    case False
    then have ne: "flatten ?rows \<noteq> []" using fe by simp
    show ?thesis
      unfolding identify_at_risk_def Let_def np_mean_axis1_def
      by (simp only: np_compress_map [OF l0] np_compress_map [OF l1] np_compress_map [OF l2]
          np_count_students_where sum.case ne am mn mn' am' if_True not_False_eq_True)
  qed
qed

text \<open>
  C2, amended. \<^verbatim>\<open>identify_at_risk\<close> returns exactly the students whose row average as
  \<^verbatim>\<open>np.mean\<close> computes it in float64 (the pairwise sum of the ten scores, divided by 10,
  every operation rounded) compares strictly below the threshold, in row order, with
  their ids and these averages; a row with a NaN score has a NaN average and is never
  selected. For each selected student the weakest subject index is the first column
  index below 10 that holds the minimum of the row, and the weakest score is that
  minimum. When no computed average is below the threshold the call returns count 0
  and four empty arrays. The call never raises.
\<close>

theorem identify_at_risk_spec:
  assumes "valid_grades grades" and "length student_ids = length grades"
  shows "\<exists>r. identify_at_risk student_ids grades threshold = Inr r \<and>
           risk_ids r = map (\<lambda>i. student_ids ! i)
             (students_where (\<lambda>a. f64_lt a threshold) (map np_mean grades)) \<and>
           risk_averages r = map (\<lambda>i. np_mean (grades ! i))
             (students_where (\<lambda>a. f64_lt a threshold) (map np_mean grades)) \<and>
           risk_count r =
             length (students_where (\<lambda>a. f64_lt a threshold) (map np_mean grades)) \<and>
           length (weakest_subject_idx r) = risk_count r \<and>
           length (weakest_scores r) = risk_count r \<and>
           (\<forall>k < risk_count r.
              weakest_subject_idx r ! k < 10 \<and>
              grades ! (students_where (\<lambda>a. f64_lt a threshold) (map np_mean grades) ! k) !
                  (weakest_subject_idx r ! k) = weakest_scores r ! k \<and>
              (\<forall>x \<in> set (grades !
                    (students_where (\<lambda>a. f64_lt a threshold) (map np_mean grades) ! k)).
                 f64_le (weakest_scores r ! k) x) \<and>
              (\<forall>j < weakest_subject_idx r ! k.
                 f64_lt (weakest_scores r ! k)
                   (grades ! (students_where (\<lambda>a. f64_lt a threshold) (map np_mean grades) ! k)
                      ! j))) \<and>
           ((\<forall>g \<in> set grades. \<not> f64_lt (np_mean g) threshold) \<longrightarrow>
              r = \<lparr>risk_count = 0, risk_ids = [], risk_averages = [],
                     weakest_subject_idx = [], weakest_scores = []\<rparr>)"
proof -
  let ?pos = "students_where (\<lambda>a. f64_lt a threshold) (map np_mean grades)"
  have lt: "\<And>k. k < length ?pos \<Longrightarrow> ?pos ! k < length grades"
    using students_where_lt [of _ "\<lambda>a. f64_lt a threshold" "map np_mean grades"] by simp
  have avg: "map (\<lambda>i. map np_mean grades ! i) ?pos = map (\<lambda>i. np_mean (grades ! i)) ?pos"
    by (rule map_cong [OF refl]) (simp add: students_where_iff)
  have weak: "\<forall>k < length ?pos.
      projr (np_argmin (grades ! (?pos ! k))) < 10 \<and>
      grades ! (?pos ! k) ! projr (np_argmin (grades ! (?pos ! k))) =
        projr (np_min (grades ! (?pos ! k))) \<and>
      (\<forall>x \<in> set (grades ! (?pos ! k)). f64_le (projr (np_min (grades ! (?pos ! k)))) x) \<and>
      (\<forall>j < projr (np_argmin (grades ! (?pos ! k))).
          f64_lt (projr (np_min (grades ! (?pos ! k)))) (grades ! (?pos ! k) ! j))"
  proof (intro allI impI)
    fix k assume "k < length ?pos"
    then have "?pos ! k \<in> set ?pos" by simp
    from at_risk_row [OF assms(1) this]
    have len: "length (grades ! (?pos ! k)) = 10" and nn: "NaN \<notin> set (grades ! (?pos ! k))"
      and ne: "grades ! (?pos ! k) \<noteq> []" by simp_all
    let ?row = "grades ! (?pos ! k)"
    from np_argmin_spec [OF ne nn] obtain a where a: "np_argmin ?row = Inr a" "a < length ?row"
      "\<forall>y \<in> set ?row. f64_le (?row ! a) y" "\<forall>j < a. f64_lt (?row ! a) (?row ! j)" by blast
    from np_min_spec [OF ne nn] obtain m where m: "np_min ?row = Inr m" "m \<in> set ?row"
      "\<forall>y \<in> set ?row. f64_le m y" by blast
    have "?row ! a \<in> set ?row" using a(2) by simp
    then have "f64_le m (?row ! a)" "f64_le (?row ! a) m" using m a by blast+
    then have eq: "?row ! a = m" using f64_le_antisym by blast
    show "projr (np_argmin ?row) < 10 \<and>
      ?row ! projr (np_argmin ?row) = projr (np_min ?row) \<and>
      (\<forall>x \<in> set ?row. f64_le (projr (np_min ?row)) x) \<and>
      (\<forall>j < projr (np_argmin ?row). f64_lt (projr (np_min ?row)) (?row ! j))"
      using a m eq len by simp
  qed
  have none: "(\<forall>g \<in> set grades. \<not> f64_lt (np_mean g) threshold) \<longrightarrow> ?pos = []"
    by (simp add: students_where_empty_iff)
  let ?r = "\<lparr>risk_count = length ?pos,
          risk_ids = map (\<lambda>i. student_ids ! i) ?pos,
          risk_averages = map (\<lambda>i. np_mean (grades ! i)) ?pos,
          weakest_subject_idx = map (\<lambda>i. projr (np_argmin (grades ! i))) ?pos,
          weakest_scores = map (\<lambda>i. projr (np_min (grades ! i))) ?pos\<rparr>"
  have res: "identify_at_risk student_ids grades threshold = Inr ?r"
    unfolding identify_at_risk_result [OF assms] avg ..
  have w: "\<forall>k < risk_count ?r.
              weakest_subject_idx ?r ! k < 10 \<and>
              grades ! (?pos ! k) ! (weakest_subject_idx ?r ! k) = weakest_scores ?r ! k \<and>
              (\<forall>x \<in> set (grades ! (?pos ! k)). f64_le (weakest_scores ?r ! k) x) \<and>
              (\<forall>j < weakest_subject_idx ?r ! k.
                 f64_lt (weakest_scores ?r ! k) (grades ! (?pos ! k) ! j))"
    using weak by simp
  have e: "(\<forall>g \<in> set grades. \<not> f64_lt (np_mean g) threshold) \<longrightarrow>
              ?r = \<lparr>risk_count = 0, risk_ids = [], risk_averages = [],
                     weakest_subject_idx = [], weakest_scores = []\<rparr>"
    using none by simp
  have f: "risk_ids ?r = map (\<lambda>i. student_ids ! i) ?pos"
      "risk_averages ?r = map (\<lambda>i. np_mean (grades ! i)) ?pos"
      "risk_count ?r = length ?pos"
      "length (weakest_subject_idx ?r) = risk_count ?r"
      "length (weakest_scores ?r) = risk_count ?r"
    by simp_all
  show ?thesis
    by (rule exI [of _ ?r]) (intro conjI res f w e)
qed

text \<open>
  C2, as stated, fails by rounding. A student with the scores 40.4, 44.7, 36.7, 60.9,
  51.3, 61.2, 43.2, 38.9, 62.5 and 60.2 (each the nearest float64 value) has an exact
  average above 50, and the decimal scores average exactly 50; the float64 average is
  49.99999999999999, and the student is returned as at risk for the threshold 50.
\<close>

theorem identify_at_risk_rounding:
  "identify_at_risk [7]
     [[round64 (404 / 10), round64 (447 / 10), round64 (367 / 10), round64 (609 / 10),
       round64 (513 / 10), round64 (612 / 10), round64 (432 / 10), round64 (389 / 10),
       round64 (625 / 10), round64 (602 / 10)]] (Fin 50) =
     Inr \<lparr>risk_count = 1, risk_ids = [7],
          risk_averages = [Fin (7036874417766399 / 140737488355328)],
          weakest_subject_idx = [2], weakest_scores = [round64 (367 / 10)]\<rparr> \<and>
   50 < spec_mean
     [round64 (404 / 10), round64 (447 / 10), round64 (367 / 10), round64 (609 / 10),
      round64 (513 / 10), round64 (612 / 10), round64 (432 / 10), round64 (389 / 10),
      round64 (625 / 10), round64 (602 / 10)]"
proof -
  have r: "round64 (404 / 10) = Fin (5685794529555251 / 140737488355328)"
    "round64 (447 / 10) = Fin (3145482864741581 / 70368744177664)"
    "round64 (367 / 10) = Fin (2582532911320269 / 70368744177664)"
    "round64 (609 / 10) = Fin (8570913040839475 / 140737488355328)"
    "round64 (513 / 10) = Fin (3609916576314163 / 70368744177664)"
    "round64 (612 / 10) = Fin (4306567143673037 / 70368744177664)"
    "round64 (432 / 10) = Fin (3039929748475085 / 70368744177664)"
    "round64 (389 / 10) = Fin (5474688297022259 / 140737488355328)"
    "round64 (625 / 10) = Fin (125 / 2)"
    "round64 (602 / 10) = Fin (4236198399495373 / 70368744177664)"
    by (simp_all add: round64_eval)
  have m: "np_mean
     [Fin (5685794529555251 / 140737488355328),
      Fin (3145482864741581 / 70368744177664),
      Fin (2582532911320269 / 70368744177664),
      Fin (8570913040839475 / 140737488355328),
      Fin (3609916576314163 / 70368744177664),
      Fin (4306567143673037 / 70368744177664),
      Fin (3039929748475085 / 70368744177664),
      Fin (5474688297022259 / 140737488355328),
      Fin (125 / 2),
      Fin (4236198399495373 / 70368744177664)] =
     Fin (7036874417766399 / 140737488355328)"
    unfolding np_mean_def pairwise_sum_10
    apply (simp add: of_count_def)
    apply (simp add: round64_eval)
    done
  show ?thesis
    unfolding r
    apply (simp add: identify_at_risk_def np_mean_axis1_def m np_compress_def np_count_def
        flatten_def Let_def np_argmin_def np_min_def fmin_def f64_ge_def spec_mean_def fin_val_def)
    done
qed

theorem identify_at_risk_spec_witness:
  "valid_grades [[Fin 90, Fin 90, Fin 90, Fin 90, Fin 90, Fin 95, Fin 95, Fin 95, Fin 95, Fin 95],
      [Fin 40, Fin 40, Fin 40, Fin 40, Fin 40, Fin 30, Fin 30, Fin 30, Fin 30, Fin 30]] \<and>
   length [101, 102 :: int] = length [[Fin 90, Fin 90, Fin 90, Fin 90, Fin 90, Fin 95, Fin 95, Fin 95, Fin 95, Fin 95],
      [Fin 40, Fin 40, Fin 40, Fin 40, Fin 40, Fin 30, Fin 30, Fin 30, Fin 30, Fin 30]] \<and>
   identify_at_risk [101, 102] [[Fin 90, Fin 90, Fin 90, Fin 90, Fin 90, Fin 95, Fin 95, Fin 95, Fin 95, Fin 95],
      [Fin 40, Fin 40, Fin 40, Fin 40, Fin 40, Fin 30, Fin 30, Fin 30, Fin 30, Fin 30]] (Fin 50) =
     Inr \<lparr>risk_count = 1, risk_ids = [102], risk_averages = [Fin 35],
          weakest_subject_idx = [5], weakest_scores = [Fin 30]\<rparr> \<and>
   \<not> f64_lt (np_mean [Fin 90, Fin 90, Fin 90, Fin 90, Fin 90, Fin 95, Fin 95, Fin 95, Fin 95, Fin 95]) (Fin 10) \<and>
   \<not> f64_lt (np_mean [Fin 40, Fin 40, Fin 40, Fin 40, Fin 40, Fin 30, Fin 30, Fin 30, Fin 30, Fin 30]) (Fin 10) \<and>
   identify_at_risk [101, 102] [[Fin 90, Fin 90, Fin 90, Fin 90, Fin 90, Fin 95, Fin 95, Fin 95, Fin 95, Fin 95],
      [Fin 40, Fin 40, Fin 40, Fin 40, Fin 40, Fin 30, Fin 30, Fin 30, Fin 30, Fin 30]] (Fin 10) =
     Inr \<lparr>risk_count = 0, risk_ids = [], risk_averages = [],
          weakest_subject_idx = [], weakest_scores = []\<rparr>"
proof -
  have v: "valid_grades [[Fin 90, Fin 90, Fin 90, Fin 90, Fin 90, Fin 95, Fin 95, Fin 95, Fin 95, Fin 95],
      [Fin 40, Fin 40, Fin 40, Fin 40, Fin 40, Fin 30, Fin 30, Fin 30, Fin 30, Fin 30]]"
    by (simp add: valid_grades_def)
  have l: "length [101, 102 :: int] = length [[Fin 90, Fin 90, Fin 90, Fin 90, Fin 90, Fin 95, Fin 95, Fin 95, Fin 95, Fin 95],
      [Fin 40, Fin 40, Fin 40, Fin 40, Fin 40, Fin 30, Fin 30, Fin 30, Fin 30, Fin 30]]"
    by simp
  have m1: "np_mean [Fin 90, Fin 90, Fin 90, Fin 90, Fin 90, Fin 95, Fin 95, Fin 95, Fin 95, Fin 95] = Fin (185 / 2)"
    unfolding np_mean_def pairwise_sum_10
    apply (simp add: of_count_def)
    apply (simp add: round64_eval)
    done
  have m2: "np_mean [Fin 40, Fin 40, Fin 40, Fin 40, Fin 40, Fin 30, Fin 30, Fin 30, Fin 30, Fin 30] = Fin 35"
    unfolding np_mean_def pairwise_sum_10
    apply (simp add: of_count_def)
    apply (simp add: round64_eval)
    done
  have a: "identify_at_risk [101, 102] [[Fin 90, Fin 90, Fin 90, Fin 90, Fin 90, Fin 95, Fin 95, Fin 95, Fin 95, Fin 95],
      [Fin 40, Fin 40, Fin 40, Fin 40, Fin 40, Fin 30, Fin 30, Fin 30, Fin 30, Fin 30]] (Fin 50) =
     Inr \<lparr>risk_count = 1, risk_ids = [102], risk_averages = [Fin 35],
          weakest_subject_idx = [5], weakest_scores = [Fin 30]\<rparr>"
    by (simp add: identify_at_risk_def np_mean_axis1_def m1 m2 np_compress_def np_count_def
        flatten_def Let_def np_argmin_def np_min_def fmin_def f64_ge_def)
  have n1: "\<not> f64_lt (np_mean [Fin 90, Fin 90, Fin 90, Fin 90, Fin 90, Fin 95, Fin 95, Fin 95, Fin 95, Fin 95]) (Fin 10)"
    by (simp add: m1)
  have n2: "\<not> f64_lt (np_mean [Fin 40, Fin 40, Fin 40, Fin 40, Fin 40, Fin 30, Fin 30, Fin 30, Fin 30, Fin 30]) (Fin 10)"
    by (simp add: m2)
  have n: "\<forall>g \<in> set [[Fin 90, Fin 90, Fin 90, Fin 90, Fin 90, Fin 95, Fin 95, Fin 95, Fin 95, Fin 95],
      [Fin 40, Fin 40, Fin 40, Fin 40, Fin 40, Fin 30, Fin 30, Fin 30, Fin 30, Fin 30]]. \<not> f64_lt (np_mean g) (Fin 10)"
    using n1 n2 by simp
  have b: "identify_at_risk [101, 102] [[Fin 90, Fin 90, Fin 90, Fin 90, Fin 90, Fin 95, Fin 95, Fin 95, Fin 95, Fin 95],
      [Fin 40, Fin 40, Fin 40, Fin 40, Fin 40, Fin 30, Fin 30, Fin 30, Fin 30, Fin 30]] (Fin 10) =
     Inr \<lparr>risk_count = 0, risk_ids = [], risk_averages = [],
          weakest_subject_idx = [], weakest_scores = []\<rparr>"
  proof -
    from identify_at_risk_spec [OF v l, of "Fin 10"] obtain r where
      r: "identify_at_risk [101, 102] [[Fin 90, Fin 90, Fin 90, Fin 90, Fin 90, Fin 95, Fin 95, Fin 95, Fin 95, Fin 95],
      [Fin 40, Fin 40, Fin 40, Fin 40, Fin 40, Fin 30, Fin 30, Fin 30, Fin 30, Fin 30]] (Fin 10) = Inr r"
      and e: "(\<forall>g \<in> set [[Fin 90, Fin 90, Fin 90, Fin 90, Fin 90, Fin 95, Fin 95, Fin 95, Fin 95, Fin 95],
      [Fin 40, Fin 40, Fin 40, Fin 40, Fin 40, Fin 30, Fin 30, Fin 30, Fin 30, Fin 30]]. \<not> f64_lt (np_mean g) (Fin 10)) \<longrightarrow>
              r = \<lparr>risk_count = 0, risk_ids = [], risk_averages = [],
                     weakest_subject_idx = [], weakest_scores = []\<rparr>"
      by blast
    from e n have "r = \<lparr>risk_count = 0, risk_ids = [], risk_averages = [],
                     weakest_subject_idx = [], weakest_scores = []\<rparr>" by blast
    with r show ?thesis by simp
  qed
  show ?thesis by (intro conjI v l a n1 n2 b)
qed

section \<open>Ranking\<close>

text \<open>
  C1. \<^verbatim>\<open>rank_students\<close> takes the bottom students with the slice
  \<^verbatim>\<open>ranked_indices[-top_n:]\<close>. For \<^verbatim>\<open>top_n = 0\<close> that slice starts at index 0, so the
  call returns every student as a bottom student, in descending order of average,
  where the last 0 entries of the order are no student at all; the top students, taken
  with \<^verbatim>\<open>ranked_indices[:top_n]\<close>, are empty as expected.
\<close>

theorem rank_students_top_n_zero:
  "rank_students [1, 2]
     [[Fin 50, Fin 50, Fin 50, Fin 50, Fin 50, Fin 50, Fin 50, Fin 50, Fin 50, Fin 50],
      [Fin 70, Fin 70, Fin 70, Fin 70, Fin 70, Fin 70, Fin 70, Fin 70, Fin 70, Fin 70]] 0 =
   Inr \<lparr>averages = [Fin 50, Fin 70],
        top_students = \<lparr>ids = [], scores = []\<rparr>,
        bottom_students = \<lparr>ids = [2, 1], scores = [Fin 70, Fin 50]\<rparr>\<rparr>"
proof -
  have a: "np_mean [Fin 50, Fin 50, Fin 50, Fin 50, Fin 50, Fin 50, Fin 50, Fin 50, Fin 50, Fin 50]
      = Fin 50"
    by (simp add: np_mean_def of_count_def sum_eval round64_eval)
  have b: "np_mean [Fin 70, Fin 70, Fin 70, Fin 70, Fin 70, Fin 70, Fin 70, Fin 70, Fin 70, Fin 70]
      = Fin 70"
    by (simp add: np_mean_def of_count_def sum_eval round64_eval)
  show ?thesis
    by (simp add: rank_students_def np_mean_axis1_def a b np_argsort_def sort_rank_def
        py_slice_to_def py_slice_from_def np_take_def Let_def upt_rec)
qed

end
